theory Spec2Isabelle
  imports Complex_Main "HOL-Library.AList"
begin

section \<open>Rate limiters: \<open>throttle\<close> and \<open>debounce\<close>\<close>

text \<open>
  Both wrappers keep private closure state and talk to the browser's timer queue. The model
  runs one wrapper against a virtual clock in milliseconds. A wrapper call happens at the
  current clock value; \<open>advance\<close> lets time pass and runs the timer callbacks that fall due,
  each at its due time. Invoking the wrapped function \<open>func\<close> is recorded as a pair of the
  clock value and the arguments in the log \<open>invoked\<close>.
\<close>

text \<open>What JavaScript code throws: the error class and its message.\<close>

datatype js_error = TypeError string | Error string | RangeError string

subsection \<open>throttle\<close>










subsection \<open>debounce\<close>

text \<open>
  \<^verbatim>\<open>
  export const debounce = (func, wait) => {
      let timeout;
      return function executedFunction(...args) {
          const later = () => {
              clearTimeout(timeout);
              func(...args);
          };
          clearTimeout(timeout);
          timeout = setTimeout(later, wait);
      };
  };
  \<close>
  A pending timer is its id, its due time and the arguments its \<open>later\<close> closure captured.
  \<open>timeout\<close> is \<open>None\<close> while the variable is \<open>undefined\<close>; \<open>clearTimeout(undefined)\<close>
  does nothing.
\<close>

record 'a debounce_env =
  timeout :: "nat option"
  db_next_id :: nat
  db_clock :: nat
  db_timers :: "(nat \<times> nat \<times> 'a) list"
  db_invoked :: "(nat \<times> 'a) list"

definition debounce_init :: "'a debounce_env" where
  "debounce_init =
     \<lparr>timeout = None, db_next_id = 1, db_clock = 0, db_timers = [], db_invoked = []\<rparr>"

definition clearTimeout :: "nat option \<Rightarrow> (nat \<times> nat \<times> 'a) list \<Rightarrow> (nat \<times> nat \<times> 'a) list" where
  "clearTimeout h ts = (case h of None \<Rightarrow> ts | Some i \<Rightarrow> filter (\<lambda>t. fst t \<noteq> i) ts)"

definition executedFunction :: "nat \<Rightarrow> 'a \<Rightarrow> 'a debounce_env \<Rightarrow> 'a debounce_env" where
  "executedFunction wait args s =
     s\<lparr>db_timers := clearTimeout (timeout s) (db_timers s) @ [(db_next_id s, db_clock s + wait, args)],
       timeout := Some (db_next_id s),
       db_next_id := db_next_id s + 1\<rparr>"

text \<open>The callback \<open>later\<close> of a timer that fires at its due time \<open>d\<close>.\<close>

definition later :: "nat \<Rightarrow> 'a \<Rightarrow> 'a debounce_env \<Rightarrow> 'a debounce_env" where
  "later d args s =
     s\<lparr>db_clock := d,
       db_timers := clearTimeout (timeout s) (db_timers s),
       db_invoked := db_invoked s @ [(d, args)]\<rparr>"

text \<open>The pending timer that is due first; among equal due times the one created first.\<close>

fun next_due :: "(nat \<times> nat \<times> 'a) list \<Rightarrow> (nat \<times> nat \<times> 'a) option" where
  "next_due [] = None"
| "next_due (t # ts) =
     (case next_due ts of
        None \<Rightarrow> Some t
      | Some u \<Rightarrow> if fst (snd u) < fst (snd t) then Some u else Some t)"

lemma next_due_mem: "next_due ts = Some t \<Longrightarrow> t \<in> set ts"
  by (induction ts arbitrary: t) (auto split: option.splits if_splits)

lemma length_clearTimeout: "length (clearTimeout h ts) \<le> length ts"
  by (simp add: clearTimeout_def split: option.splits)

lemma length_remove1_mem: "t \<in> set ts \<Longrightarrow> length (remove1 t ts) < length ts"
  by (induction ts) auto

function db_advance_to :: "nat \<Rightarrow> 'a debounce_env \<Rightarrow> 'a debounce_env" where
  "db_advance_to t s =
     (case next_due (db_timers s) of
        None \<Rightarrow> s\<lparr>db_clock := t\<rparr>
      | Some (i, d, a) \<Rightarrow>
          if d \<le> t
          then db_advance_to t (later d a (s\<lparr>db_timers := remove1 (i, d, a) (db_timers s)\<rparr>))
          else s\<lparr>db_clock := t\<rparr>)"
  by pat_completeness auto
termination
proof (relation "measure (\<lambda>(t, s). length (db_timers s))")
  show "wf (measure (\<lambda>(t, s). length (db_timers s)))" by simp
next
  fix t :: nat and s :: "'a debounce_env" and x2 i y d a
  assume nd: "next_due (db_timers s) = Some x2" and x2: "(i, y) = x2" and y: "(d, a) = y"
  have "(i, d, a) \<in> set (db_timers s)"
    using next_due_mem [OF nd] x2 y by simp
  then have "length (remove1 (i, d, a) (db_timers s)) < length (db_timers s)"
    by (rule length_remove1_mem)
  moreover have "length (clearTimeout (timeout s) (remove1 (i, d, a) (db_timers s)))
        \<le> length (remove1 (i, d, a) (db_timers s))"
    by (rule length_clearTimeout)
  ultimately show "((t, later d a (s\<lparr>db_timers := remove1 (i, d, a) (db_timers s)\<rparr>)), (t, s))
        \<in> measure (\<lambda>(t, s). length (db_timers s))"
    by (simp add: later_def)
qed

definition db_advance :: "nat \<Rightarrow> 'a debounce_env \<Rightarrow> 'a debounce_env" where
  "db_advance dt s = db_advance_to (db_clock s + dt) s"

text \<open>
  A burst is a list of calls, each with the time that passed since the event before it:
  \<open>(gap, args)\<close> stands for "let \<open>gap\<close> ms pass, then call the wrapper with \<open>args\<close>".
\<close>

definition db_call_after :: "nat \<Rightarrow> nat \<times> 'a \<Rightarrow> 'a debounce_env \<Rightarrow> 'a debounce_env" where
  "db_call_after wait c s = executedFunction wait (snd c) (db_advance (fst c) s)"

definition db_burst :: "nat \<Rightarrow> (nat \<times> 'a) list \<Rightarrow> 'a debounce_env \<Rightarrow> 'a debounce_env" where
  "db_burst wait cs s = fold (db_call_after wait) cs s"

subsection \<open>The terminal's debounce\<close>

text \<open>
  \<^verbatim>\<open>
  debounce(func, wait) {
      let timeout; let lastArgs; let lastThis; let result;
      function later() {
          timeout = null;
          result = func.apply(lastThis, lastArgs);
      }
      function debounced(...args) {
          lastArgs = args;
          lastThis = this;
          if (timeout) {
              clearTimeout(timeout);
          }
          timeout = setTimeout(later, wait);
          return result;
      }
      debounced.cancel = function() {
          if (timeout) { clearTimeout(timeout); timeout = null; }
      };
      return debounced;
  }
  \<close>
  Here the arguments are kept in the variable \<open>lastArgs\<close> and the timer callback reads them
  when it fires, so a pending timer carries no arguments. A handle is truthy unless it is 0.
  \<open>func\<close> invoked with \<open>lastArgs\<close> still \<open>undefined\<close> is logged with \<open>None\<close>.
\<close>

record 'a debounced_env =
  td_timeout :: "nat option"
  lastArgs :: "'a option"
  td_next_id :: nat
  td_clock :: nat
  td_timers :: "(nat \<times> nat \<times> unit) list"
  td_invoked :: "(nat \<times> 'a option) list"

definition debounced_init :: "'a debounced_env" where
  "debounced_init =
     \<lparr>td_timeout = None, lastArgs = None, td_next_id = 1, td_clock = 0, td_timers = [],
      td_invoked = []\<rparr>"

definition truthy_handle :: "nat option \<Rightarrow> bool" where
  "truthy_handle h = (case h of None \<Rightarrow> False | Some i \<Rightarrow> i \<noteq> 0)"

definition debounced :: "nat \<Rightarrow> 'a \<Rightarrow> 'a debounced_env \<Rightarrow> 'a debounced_env" where
  "debounced wait args s =
     s\<lparr>lastArgs := Some args,
       td_timers :=
         (if truthy_handle (td_timeout s) then clearTimeout (td_timeout s) (td_timers s)
          else td_timers s) @ [(td_next_id s, td_clock s + wait, ())],
       td_timeout := Some (td_next_id s),
       td_next_id := td_next_id s + 1\<rparr>"

definition debounced_cancel :: "'a debounced_env \<Rightarrow> 'a debounced_env" where
  "debounced_cancel s =
     (if truthy_handle (td_timeout s)
      then s\<lparr>td_timers := clearTimeout (td_timeout s) (td_timers s), td_timeout := None\<rparr>
      else s)"

definition td_later :: "nat \<Rightarrow> 'a debounced_env \<Rightarrow> 'a debounced_env" where
  "td_later d s =
     s\<lparr>td_clock := d, td_timeout := None, td_invoked := td_invoked s @ [(d, lastArgs s)]\<rparr>"

function td_advance_to :: "nat \<Rightarrow> 'a debounced_env \<Rightarrow> 'a debounced_env" where
  "td_advance_to t s =
     (case next_due (td_timers s) of
        None \<Rightarrow> s\<lparr>td_clock := t\<rparr>
      | Some (i, d, u) \<Rightarrow>
          if d \<le> t
          then td_advance_to t (td_later d (s\<lparr>td_timers := remove1 (i, d, u) (td_timers s)\<rparr>))
          else s\<lparr>td_clock := t\<rparr>)"
  by pat_completeness auto
termination
proof (relation "measure (\<lambda>(t, s). length (td_timers s))")
  show "wf (measure (\<lambda>(t, s). length (td_timers s)))" by simp
next
  fix t :: nat and s :: "'a debounced_env" and x2 i y d u
  assume nd: "next_due (td_timers s) = Some x2" and x2: "(i, y) = x2" and y: "(d, u) = y"
  have "(i, d, u) \<in> set (td_timers s)"
    using next_due_mem [OF nd] x2 y by simp
  then have "length (remove1 (i, d, u) (td_timers s)) < length (td_timers s)"
    by (rule length_remove1_mem)
  then show "((t, td_later d (s\<lparr>td_timers := remove1 (i, d, u) (td_timers s)\<rparr>)), (t, s))
        \<in> measure (\<lambda>(t, s). length (td_timers s))"
    by (simp add: td_later_def)
qed

definition td_advance :: "nat \<Rightarrow> 'a debounced_env \<Rightarrow> 'a debounced_env" where
  "td_advance dt s = td_advance_to (td_clock s + dt) s"

definition td_call_after :: "nat \<Rightarrow> nat \<times> 'a \<Rightarrow> 'a debounced_env \<Rightarrow> 'a debounced_env" where
  "td_call_after wait c s = debounced wait (snd c) (td_advance (fst c) s)"

definition td_burst :: "nat \<Rightarrow> (nat \<times> 'a) list \<Rightarrow> 'a debounced_env \<Rightarrow> 'a debounced_env" where
  "td_burst wait cs s = fold (td_call_after wait) cs s"

section \<open>The terminal controller\<close>

text \<open>
  A string is the list of the bytes of its UTF-8 encoding, so a character outside ASCII takes
  two to four elements (the box-drawing characters below, the no-break space \<open>C2 A0\<close>). No
  byte of a multi-byte character is an ASCII byte, and the first byte of a character is never
  a later byte of one. So \<open>split(' ')\<close>, \<open>join(' ')\<close>, concatenation and \<open>startsWith\<close> on the
  command names, which are ASCII, act on the bytes as they act on the text, and the encoding
  of a white-space character at either end of the bytes is that character at that end of the
  text.

  \<open>trim\<close> strips, at both ends, every character that ECMAScript counts as white space or as a
  line terminator: tab, line feed, vertical tab, form feed, carriage return, space, U+00A0,
  U+1680, U+2000 to U+200A, U+2028, U+2029, U+202F, U+205F, U+3000 and U+FEFF.
  \<open>js_whitespace\<close> lists their encodings.
\<close>

definition js_whitespace :: "string list" where
  "js_whitespace =
     [[CHR 0x09], [CHR 0x0A], [CHR 0x0B], [CHR 0x0C], [CHR 0x0D], [CHR 0x20],
      [CHR 0xC2, CHR 0xA0],
      [CHR 0xE1, CHR 0x9A, CHR 0x80],
      [CHR 0xE2, CHR 0x80, CHR 0x80], [CHR 0xE2, CHR 0x80, CHR 0x81],
      [CHR 0xE2, CHR 0x80, CHR 0x82], [CHR 0xE2, CHR 0x80, CHR 0x83],
      [CHR 0xE2, CHR 0x80, CHR 0x84], [CHR 0xE2, CHR 0x80, CHR 0x85],
      [CHR 0xE2, CHR 0x80, CHR 0x86], [CHR 0xE2, CHR 0x80, CHR 0x87],
      [CHR 0xE2, CHR 0x80, CHR 0x88], [CHR 0xE2, CHR 0x80, CHR 0x89],
      [CHR 0xE2, CHR 0x80, CHR 0x8A],
      [CHR 0xE2, CHR 0x80, CHR 0xA8], [CHR 0xE2, CHR 0x80, CHR 0xA9],
      [CHR 0xE2, CHR 0x80, CHR 0xAF],
      [CHR 0xE2, CHR 0x81, CHR 0x9F],
      [CHR 0xE3, CHR 0x80, CHR 0x80],
      [CHR 0xEF, CHR 0xBB, CHR 0xBF]]"

text \<open>
  \<open>strip ws s\<close> removes from the front of \<open>s\<close> every leading occurrence of a member of \<open>ws\<close>.
  \<open>trimEnd\<close> does the same from the back, on the reversed text with the reversed encodings.
\<close>

fun strip :: "string list \<Rightarrow> string \<Rightarrow> string" where
  "strip ws [] = []"
| "strip ws (c # cs) =
     (case find (\<lambda>w. w \<noteq> [] \<and> take (length w) (c # cs) = w) ws of
        Some w \<Rightarrow> strip ws (drop (length w - 1) cs)
      | None \<Rightarrow> c # cs)"

definition trimStart :: "string \<Rightarrow> string" where
  "trimStart s = strip js_whitespace s"

definition trimEnd :: "string \<Rightarrow> string" where
  "trimEnd s = rev (strip (map rev js_whitespace) (rev s))"

definition trim :: "string \<Rightarrow> string" where
  "trim s = trimEnd (trimStart s)"

text \<open>
  \<open>toLowerCase\<close>. On text that is all ASCII it maps \<open>A\<close>..\<open>Z\<close> to \<open>a\<close>..\<open>z\<close> and leaves every
  other character. On any other text it is the lower-casing of the Unicode tables, which also
  maps some characters outside ASCII to ASCII letters (U+212A, the Kelvin sign, to \<open>k\<close>), can
  change the length of the text and depends on context (the final sigma). The tables are not
  embedded: the model takes the lower-casing of non-ASCII text as a parameter \<open>U\<close>, and
  whatever is proved holds for every \<open>U\<close>.
\<close>

definition ascii :: "string \<Rightarrow> bool" where
  "ascii s \<longleftrightarrow> list_all (\<lambda>c. (of_char c :: nat) < 128) s"

definition toLowerCase_ascii :: "char \<Rightarrow> char" where
  "toLowerCase_ascii c =
     (case map_of (zip ''ABCDEFGHIJKLMNOPQRSTUVWXYZ'' ''abcdefghijklmnopqrstuvwxyz'') c of
        Some l \<Rightarrow> l
      | None \<Rightarrow> c)"

definition toLowerCase :: "(string \<Rightarrow> string) \<Rightarrow> string \<Rightarrow> string" where
  "toLowerCase U s = (if ascii s then map toLowerCase_ascii s else U s)"

text \<open>\<open>s.split(sep)\<close> for a one-character separator: never the empty list, \<open>''.split(' ')\<close> is \<open>['']\<close>.\<close>

fun split :: "char \<Rightarrow> string \<Rightarrow> string list" where
  "split sep [] = [[]]"
| "split sep (c # cs) =
     (if c = sep then [] # split sep cs
      else (case split sep cs of
              w # ws \<Rightarrow> (c # w) # ws
            | [] \<Rightarrow> [[c]]))"

fun join :: "string \<Rightarrow> string list \<Rightarrow> string" where
  "join sep [] = []"
| "join sep [x] = x"
| "join sep (x # y # ys) = x @ sep @ join sep (y # ys)"

definition startsWith :: "string \<Rightarrow> string \<Rightarrow> bool" where
  "startsWith s p \<longleftrightarrow> take (length p) s = p"

subsection \<open>Instance state\<close>

text \<open>
  The fields of a \<open>Terminal\<close> the command state machine reads and writes, and the parts of
  the page it acts on: the value of the input field (\<open>this.elements.input.value\<close>), the
  children of the history panel (\<open>this.elements.history\<close>) as pairs of text content and the
  type put into the class name, and \<open>window.location\<close>. \<open>date_string\<close> is what
  \<open>new Date().toLocaleString()\<close> returns. The four required elements are present: event
  listeners are installed only after \<open>initializeElements\<close> has found them all.
\<close>

record terminal =
  commandHistory :: "string list"
  historyIndex :: int
  input_value :: string
  history_lines :: "(string \<times> string) list"
  location_href :: "string option"
  location_pathname :: string
  date_string :: string

definition addToHistory :: "string \<Rightarrow> string \<Rightarrow> terminal \<Rightarrow> terminal" where
  "addToHistory text type t = t\<lparr>history_lines := history_lines t @ [(text, type)]\<rparr>"

definition addLines :: "string list \<Rightarrow> terminal \<Rightarrow> terminal" where
  "addLines ls t = fold (\<lambda>l. addToHistory l []) ls t"

definition clearHistory :: "terminal \<Rightarrow> terminal" where
  "clearHistory t = t\<lparr>history_lines := []\<rparr>"

definition navigateTo :: "string \<Rightarrow> terminal \<Rightarrow> terminal" where
  "navigateTo path t = t\<lparr>location_href := Some path\<rparr>"

subsection \<open>Commands\<close>

text \<open>
  \<open>this.commands\<close> is an object literal with fourteen own properties. Reading
  \<open>this.commands[key]\<close> also finds what the object inherits from \<open>Object.prototype\<close>:
  \<open>constructor\<close> (the function \<open>Object\<close>), \<open>__proto__\<close> (the prototype object, which is truthy
  and not callable) and ten methods. The methods have an upper-case letter in their name, so
  the lowercased key of an ASCII command never names one. \<open>cmd(args)\<close> calls them with \<open>this\<close>
  undefined: \<open>toString\<close> returns a text, the others throw a \<open>TypeError\<close>.
\<close>

datatype command =
  Help | Clear | About | Projects | Contact | Ls | Whoami | Date | Echo | Skills | Social
  | Pwd | Cat | Cd

definition commands :: "(string \<times> command) list" where
  "commands =
     [(''help'', Help), (''clear'', Clear), (''about'', About), (''projects'', Projects),
      (''contact'', Contact), (''ls'', Ls), (''whoami'', Whoami), (''date'', Date),
      (''echo'', Echo), (''skills'', Skills), (''social'', Social), (''pwd'', Pwd),
      (''cat'', Cat), (''cd'', Cd)]"

definition Object_prototype_names :: "string list" where
  "Object_prototype_names =
     [''constructor'', ''__defineGetter__'', ''__defineSetter__'', ''hasOwnProperty'',
      ''__lookupGetter__'', ''__lookupSetter__'', ''isPrototypeOf'', ''propertyIsEnumerable'',
      ''toString'', ''valueOf'', ''__proto__'', ''toLocaleString'']"

datatype property =
  Own command | ObjectConstructor | ObjectMethod string | ObjectPrototype | Undefined

definition commands_get :: "string \<Rightarrow> property" where
  "commands_get key =
     (case map_of commands key of
        Some c \<Rightarrow> Own c
      | None \<Rightarrow>
          if key = ''constructor'' then ObjectConstructor
          else if key = ''__proto__'' then ObjectPrototype
          else if key \<in> set Object_prototype_names then ObjectMethod key
          else Undefined)"

definition showHelp :: "terminal \<Rightarrow> terminal" where
  "showHelp = addLines
     [''Available commands:'',
      ''help     - Show this help message'',
      ''clear    - Clear terminal history'',
      ''about    - Go to About page'',
      ''projects - Go to Projects page'',
      ''contact  - Go to Contact page'',
      ''ls       - List all sections'',
      ''whoami   - Display user info'',
      ''date     - Show current date/time'',
      ''echo     - Echo back your text'',
      ''skills   - List my technical skills'',
      ''social   - Show social media links'',
      ''pwd      - Print working directory'',
      ''cat      - Read a file'',
      ''cd       - Change directory'']"

definition listSections :: "terminal \<Rightarrow> terminal" where
  "listSections t =
     fold (\<lambda>section. addToHistory (''  '' @ section) [])
       [''about.html'', ''projects.html'', ''contact.html'']
       (addToHistory ''Available sections:'' [] t)"

text \<open>
  The skills block draws a tree with the characters U+251C, U+2514 and U+2500; they are
  written here as their UTF-8 bytes.
\<close>

definition box_tee :: string where
  "box_tee = [CHR 0xE2, CHR 0x94, CHR 0x9C, CHR 0xE2, CHR 0x94, CHR 0x80, CHR 0xE2, CHR 0x94, CHR 0x80]"

definition box_end :: string where
  "box_end = [CHR 0xE2, CHR 0x94, CHR 0x94, CHR 0xE2, CHR 0x94, CHR 0x80, CHR 0xE2, CHR 0x94, CHR 0x80]"

definition showSkills :: "terminal \<Rightarrow> terminal" where
  "showSkills = addLines
     [''[SECURITY]'',
      ''  '' @ box_tee @ '' Penetration Testing'',
      ''  '' @ box_tee @ '' Network Security'',
      ''  '' @ box_tee @ '' Active Directory'',
      ''  '' @ box_end @ '' Cloud Security'',
      [],
      ''[DEVELOPMENT]'',
      ''  '' @ box_tee @ '' Python'',
      ''  '' @ box_tee @ '' PowerShell'',
      ''  '' @ box_tee @ '' Bash'',
      ''  '' @ box_end @ '' Web Development'',
      [],
      ''[CERTIFICATIONS]'',
      ''  '' @ box_tee @ '' OSCP'',
      ''  '' @ box_end @ '' OSEP (In Progress)'']"

definition showSocial :: "terminal \<Rightarrow> terminal" where
  "showSocial = addLines
     [''Social Links:'',
      ''  GitHub:   https://github.com/rileymxyz'',
      ''  LinkedIn: https://www.linkedin.com/in/riley-mcgowen'',
      ''  Twitter:  https://x.com/rileymxyz'']"

definition showCurrentPath :: "terminal \<Rightarrow> terminal" where
  "showCurrentPath t = addToHistory (''/home/riley/web-app'' @ location_pathname t) [] t"

definition showWhoami :: "terminal \<Rightarrow> terminal" where
  "showWhoami = addLines
     [''Riley McGowen'',
      ''IT Professional & Security Specialist'',
      ''Location: Seattle, WA'',
      ''Status: Available for Security Projects'']"

definition showDate :: "terminal \<Rightarrow> terminal" where
  "showDate t = addToHistory (date_string t) [] t"

definition echo :: "string list \<Rightarrow> terminal \<Rightarrow> terminal" where
  "echo args t = (if length args > 0 then addToHistory (join '' '' args) [] t else t)"

text \<open>
  \<open>catFile\<close> reads \<open>fileContents[filename]\<close> from an object literal with two own properties.
  A file name that is a property name of \<open>Object.prototype\<close> finds an inherited value, which is
  truthy and has no \<open>forEach\<close>: the call throws a \<open>TypeError\<close>.
\<close>

definition fileContents :: "(string \<times> string list) list" where
  \<open>fileContents =
     [(''readme.md'',
         [''# Riley McGowen'',
          ''IT Professional & Security Specialist'',
          [],
          ''Welcome to my portfolio website!'',
          ''Type "help" to see available commands.'']),
      (''skills.txt'',
         [''Technical Skills:'',
          ''- Penetration Testing'',
          ''- Network Security'',
          ''- Python Development'',
          ''- Cloud Security''])]\<close>

definition catFile :: "string list \<Rightarrow> terminal \<Rightarrow> js_error option \<times> terminal" where
  "catFile args t =
     (case args of
        [] \<Rightarrow> (None, addToHistory ''Usage: cat <filename>'' ''error'' t)
      | filename # _ \<Rightarrow>
          (case map_of fileContents filename of
             Some ls \<Rightarrow> (None, addLines ls t)
           | None \<Rightarrow>
               if filename \<in> set Object_prototype_names
               then (Some (TypeError ''fileContents[filename].forEach is not a function''), t)
               else (None, addToHistory (''File not found: '' @ filename) ''error'' t)))"

definition changeDirectory :: "string list \<Rightarrow> terminal \<Rightarrow> terminal" where
  "changeDirectory args t =
     (case args of
        [] \<Rightarrow> addToHistory ''Usage: cd <directory>'' ''error'' t
      | dir # _ \<Rightarrow>
          if dir = ''/'' \<or> dir = ''~'' then t\<lparr>location_href := Some ''/''\<rparr>
          else if dir = ''about'' then navigateTo ''/about.html'' t
          else if dir = ''projects'' then navigateTo ''/projects.html'' t
          else if dir = ''contact'' then navigateTo ''/contact.html'' t
          else addToHistory (''Directory not found: '' @ dir) ''error'' t)"

text \<open>Calling the arrow function stored under a command name with \<open>args\<close>.\<close>

fun call_command :: "command \<Rightarrow> string list \<Rightarrow> terminal \<Rightarrow> js_error option \<times> terminal" where
  "call_command Help args t = (None, showHelp t)"
| "call_command Clear args t = (None, clearHistory t)"
| "call_command About args t = (None, navigateTo ''/about.html'' t)"
| "call_command Projects args t = (None, navigateTo ''/projects.html'' t)"
| "call_command Contact args t = (None, navigateTo ''/contact.html'' t)"
| "call_command Ls args t = (None, listSections t)"
| "call_command Whoami args t = (None, showWhoami t)"
| "call_command Date args t = (None, showDate t)"
| "call_command Echo args t = (None, echo args t)"
| "call_command Skills args t = (None, showSkills t)"
| "call_command Social args t = (None, showSocial t)"
| "call_command Pwd args t = (None, showCurrentPath t)"
| "call_command Cat args t = catFile args t"
| "call_command Cd args t = (None, changeDirectory args t)"

text \<open>
  \<open>executeCommand\<close>. The trimmed input is never empty past the first test, and \<open>split\<close> never
  returns the empty list, so \<open>command\<close> is defined. An exception thrown in the \<open>try\<close> block
  is caught: the line \<open>Failed to execute command\<close> is appended and the input is not cleared.
  \<open>U\<close> is the lower-casing of non-ASCII text.
\<close>

definition help_hint :: string where
  \<open>help_hint = ''Type "help" for available commands''\<close>

definition executeCommand :: "(string \<Rightarrow> string) \<Rightarrow> terminal \<Rightarrow> terminal" where
  "executeCommand U t =
     (let input = trim (input_value t) in
      if input = [] then t
      else
        let t1 = addToHistory input [] t;
            command = hd (split CHR '' '' input);
            args = tl (split CHR '' '' input)
        in case commands_get (toLowerCase U command) of
             Own cmd \<Rightarrow>
               (case call_command cmd args t1 of
                  (None, t2) \<Rightarrow> t2\<lparr>input_value := []\<rparr>
                | (Some e, t2) \<Rightarrow> addToHistory ''Failed to execute command'' ''error'' t2)
           | ObjectConstructor \<Rightarrow> t1\<lparr>input_value := []\<rparr>
           | ObjectMethod name \<Rightarrow>
               if name = ''toString'' then t1\<lparr>input_value := []\<rparr>
               else addToHistory ''Failed to execute command'' ''error'' t1
           | ObjectPrototype \<Rightarrow> addToHistory ''Failed to execute command'' ''error'' t1
           | Undefined \<Rightarrow>
               (addToHistory help_hint []
                  (addToHistory (''Command not found: '' @ command) ''error'' t1))
               \<lparr>input_value := []\<rparr>)"

text \<open>\<open>handleTabCompletion\<close>; \<open>tab_matches\<close> is its constant \<open>matches\<close>.\<close>

definition tab_matches :: "(string \<Rightarrow> string) \<Rightarrow> string \<Rightarrow> string list" where
  "tab_matches U v =
     (let input = trim v;
          partialCommand = hd (split CHR '' '' input)
      in filter (\<lambda>cmd. startsWith cmd (toLowerCase U partialCommand)) (map fst commands))"

definition handleTabCompletion :: "(string \<Rightarrow> string) \<Rightarrow> terminal \<Rightarrow> terminal" where
  "handleTabCompletion U t =
     (let matches = tab_matches U (input_value t) in
      if length matches = 1 then t\<lparr>input_value := hd matches\<rparr>
      else if length matches > 1
      then fold (\<lambda>m. addToHistory (''  '' @ m) []) matches (addToHistory ''Possible commands:'' [] t)
      else t)"

text \<open>
  \<open>handleKeydown\<close>. Reading \<open>this.commandHistory[i]\<close> outside the array gives \<open>undefined\<close>,
  which the input field stores as the text \<open>undefined\<close>.
\<close>

datatype key = Enter | ArrowUp | ArrowDown | Tab | OtherKey

definition history_at :: "string list \<Rightarrow> int \<Rightarrow> string" where
  "history_at h i = (if 0 \<le> i \<and> i < int (length h) then h ! nat i else ''undefined'')"

fun handleKeydown :: "(string \<Rightarrow> string) \<Rightarrow> key \<Rightarrow> terminal \<Rightarrow> terminal" where
  "handleKeydown U Enter t =
     (let command = trim (input_value t) in
      executeCommand U
        (if command \<noteq> []
         then t\<lparr>commandHistory := command # commandHistory t, historyIndex := -1\<rparr>
         else t))"
| "handleKeydown U ArrowUp t =
     (if historyIndex t < int (length (commandHistory t)) - 1
      then t\<lparr>historyIndex := historyIndex t + 1,
             input_value := history_at (commandHistory t) (historyIndex t + 1)\<rparr>
      else t)"
| "handleKeydown U ArrowDown t =
     (if historyIndex t > -1
      then t\<lparr>historyIndex := historyIndex t - 1,
             input_value := (if historyIndex t - 1 = -1 then []
                             else history_at (commandHistory t) (historyIndex t - 1))\<rparr>
      else t)"
| "handleKeydown U Tab t = handleTabCompletion U t"
| "handleKeydown U OtherKey t = t"

text \<open>What reaches the terminal: a key press on the input field, or the user editing its text.\<close>

datatype input_event = Keydown key | Edit string

fun terminal_event :: "(string \<Rightarrow> string) \<Rightarrow> input_event \<Rightarrow> terminal \<Rightarrow> terminal" where
  "terminal_event U (Keydown k) t = handleKeydown U k t"
| "terminal_event U (Edit v) t = t\<lparr>input_value := v\<rparr>"

definition terminal_events :: "(string \<Rightarrow> string) \<Rightarrow> input_event list \<Rightarrow> terminal \<Rightarrow> terminal" where
  "terminal_events U evs t = fold (terminal_event U) evs t"

subsection \<open>The singleton\<close>

text \<open>
  The class keeps \<open>#instance\<close> (here \<open>static_instance\<close>) and \<open>#initializing\<close>. Objects live in a heap and are named by
  references; \<open>new\<close> takes the next unused reference. The constructor throws unless
  \<open>#initializing\<close> is set; past that test its body is wrapped in \<open>try\<close>/\<open>catch\<close> and returns
  the new object, whose command state starts empty.
\<close>

record terminal_class =
  static_instance :: "nat option"
  initializing :: bool
  heap :: "nat \<rightharpoonup> terminal"
  next_ref :: nat
  page_pathname :: string
  page_date :: string

definition Terminal_init :: "terminal_class \<Rightarrow> terminal" where
  "Terminal_init c =
     \<lparr>commandHistory = [], historyIndex = -1, input_value = [], history_lines = [],
      location_href = None, location_pathname = page_pathname c, date_string = page_date c\<rparr>"

definition Terminal_new :: "terminal_class \<Rightarrow> js_error + (nat \<times> terminal_class)" where
  "Terminal_new c =
     (if \<not> initializing c
      then Inl (Error ''Terminal must be initialized using Terminal.getInstance()'')
      else Inr (next_ref c,
                c\<lparr>heap := (heap c)(next_ref c \<mapsto> Terminal_init c), next_ref := next_ref c + 1\<rparr>))"

definition getInstance :: "terminal_class \<Rightarrow> (js_error + nat) \<times> terminal_class" where
  "getInstance c =
     (case static_instance c of
        None \<Rightarrow>
          (case Terminal_new (c\<lparr>initializing := True\<rparr>) of
             Inr (r, c') \<Rightarrow> (Inr r, c'\<lparr>static_instance := Some r, initializing := False\<rparr>)
           | Inl e \<Rightarrow> (Inl e, c\<lparr>initializing := False\<rparr>))
      | Some r \<Rightarrow> (Inr r, c))"

definition hasInstance :: "terminal_class \<Rightarrow> bool" where
  "hasInstance c \<longleftrightarrow> static_instance c \<noteq> None"

definition resetInstance :: "terminal_class \<Rightarrow> terminal_class" where
  "resetInstance c = c\<lparr>static_instance := None\<rparr>"

text \<open>
  What other code can do with the class: call the accessor, reset, or call the constructor
  directly. \<open>accessor_calls n\<close> is \<open>n\<close> accessor calls in a row, with their results.
\<close>

fun accessor_calls :: "nat \<Rightarrow> terminal_class \<Rightarrow> (js_error + nat) list \<times> terminal_class" where
  "accessor_calls 0 c = ([], c)"
| "accessor_calls (Suc n) c =
     (fst (getInstance c) # fst (accessor_calls n (snd (getInstance c))),
      snd (accessor_calls n (snd (getInstance c))))"

definition class_loaded :: "string \<Rightarrow> string \<Rightarrow> terminal_class" where
  "class_loaded path date =
     \<lparr>static_instance = None, initializing = False, heap = Map.empty, next_ref = 0,
      page_pathname = path, page_date = date\<rparr>"

text \<open>
  Between two static calls the class is in a state where \<open>#initializing\<close> is clear (the
  accessor clears it in \<open>finally\<close>) and the instance, if there is one, is an object that was
  allocated.
\<close>

definition class_ok :: "terminal_class \<Rightarrow> bool" where
  "class_ok c \<longleftrightarrow>
     \<not> initializing c \<and> (case static_instance c of None \<Rightarrow> True | Some r \<Rightarrow> r < next_ref c)"

text \<open>The history cursor is within its bounds: from \<open>-1\<close> to the last index of the history.\<close>

definition cursor_ok :: "terminal \<Rightarrow> bool" where
  "cursor_ok t \<longleftrightarrow>
     -1 \<le> historyIndex t \<and> historyIndex t \<le> int (length (commandHistory t)) - 1"

definition arrow_key :: "key \<Rightarrow> bool" where
  "arrow_key k \<longleftrightarrow> k = ArrowUp \<or> k = ArrowDown"

text \<open>
  The tokens of a line as the specification words them, "whitespace-separated": the maximal
  runs of characters that are not white space. This follows the specification, not the code,
  which splits the trimmed line at every single space.
\<close>

fun whitespace_tokens_from :: "string \<Rightarrow> string \<Rightarrow> string list" where
  "whitespace_tokens_from cur [] = (if cur = [] then [] else [cur])"
| "whitespace_tokens_from cur (c # cs) =
     (case find (\<lambda>w. w \<noteq> [] \<and> take (length w) (c # cs) = w) js_whitespace of
        Some w \<Rightarrow>
          (if cur = [] then [] else [cur]) @ whitespace_tokens_from [] (drop (length w - 1) cs)
      | None \<Rightarrow> whitespace_tokens_from (cur @ [c]) cs)"

definition whitespace_tokens :: "string \<Rightarrow> string list" where
  "whitespace_tokens s = whitespace_tokens_from [] s"

text \<open>A terminal right after construction, on a page with the given path and clock text.\<close>

definition terminal_fresh :: "terminal" where
  "terminal_fresh = Terminal_init (class_loaded ''/'' ''1/1/2025, 12:00:00 PM'')"

section \<open>The frame scheduler\<close>

text \<open>
  DOM elements are references. A style fragment is a JavaScript object: its own properties
  in insertion order, each with a value. Numbers are exact reals together with the three
  values that are not finite; rounding is not modelled. The only style value the code
  computes from numbers that the model looks into is \<open>scaleX(n)\<close>; other texts are opaque.
\<close>

type_synonym elem = nat

datatype js_number = Finite real | PosInfinity | NegInfinity | NaN

datatype css_value = ScaleX js_number | Css string

type_synonym style = "(string \<times> css_value) list"

text \<open>
  \<open>Object.assign(target, source)\<close> sets the properties of \<open>source\<close> on \<open>target\<close> one by one: a
  property the target has keeps its place and takes the new value, a new one goes to the
  end. The object literal \<open>{...a, ...b}\<close> is a new object, assigned \<open>a\<close> and then \<open>b\<close>;
  spreading \<open>undefined\<close> adds nothing.
\<close>

definition Object_assign :: "style \<Rightarrow> style \<Rightarrow> style" where
  "Object_assign target source = fold (\<lambda>(k, v). AList.update k v) source target"

definition spread :: "style option \<Rightarrow> style \<Rightarrow> style" where
  "spread a b =
     Object_assign (Object_assign [] (case a of None \<Rightarrow> [] | Some x \<Rightarrow> x)) b"

subsection \<open>The module-level scheduler\<close>

text \<open>
  \<^verbatim>\<open>
  export const scheduleStyleUpdate = (() => {
      const updates = new Map();
      let ticking = false;
      const runUpdates = () => {
          updates.forEach((style, element) => {
              Object.assign(element.style, style);
          });
          updates.clear();
          ticking = false;
      };
      return (element, style) => {
          updates.set(element, { ...updates.get(element), ...style });
          if (!ticking) {
              ticking = true;
              requestAnimationFrame(runUpdates);
          }
      };
  })();
  \<close>
  A \<open>Map\<close> keeps its keys in insertion order and \<open>set\<close> on a key it has replaces the value in
  place: an association list under \<open>AList.update\<close>. \<open>su_requested\<close> counts the frame requests for
  \<open>runUpdates\<close> that have not been served, \<open>su_style\<close> is \<open>element.style\<close>, and \<open>su_writes\<close> logs
  every style object applied to an element, in order.
\<close>

record scheduler =
  updates :: "(elem \<times> style) list"
  su_ticking :: bool
  su_requested :: nat
  su_style :: "elem \<Rightarrow> style"
  su_writes :: "(elem \<times> style) list"

definition scheduler_init :: scheduler where
  "scheduler_init =
     \<lparr>updates = [], su_ticking = False, su_requested = 0, su_style = (\<lambda>e. []), su_writes = []\<rparr>"

definition scheduleStyleUpdate :: "elem \<Rightarrow> style \<Rightarrow> scheduler \<Rightarrow> scheduler" where
  "scheduleStyleUpdate element st s =
     (let s1 = s\<lparr>updates := AList.update element (spread (map_of (updates s) element) st) (updates s)\<rparr>
      in if \<not> su_ticking s1
         then s1\<lparr>su_ticking := True, su_requested := su_requested s1 + 1\<rparr>
         else s1)"

definition su_apply :: "elem \<times> style \<Rightarrow> scheduler \<Rightarrow> scheduler" where
  "su_apply w s =
     s\<lparr>su_style := (su_style s)(fst w := Object_assign (su_style s (fst w)) (snd w)),
       su_writes := su_writes s @ [w]\<rparr>"

definition runUpdates :: "scheduler \<Rightarrow> scheduler" where
  "runUpdates s = (fold su_apply (updates s) s)\<lparr>updates := [], su_ticking := False\<rparr>"

text \<open>An animation frame: every request made before it is served, once.\<close>

definition su_frame :: "scheduler \<Rightarrow> scheduler" where
  "su_frame s = (runUpdates ^^ su_requested s) (s\<lparr>su_requested := 0\<rparr>)"

definition su_schedule_all :: "(elem \<times> style) list \<Rightarrow> scheduler \<Rightarrow> scheduler" where
  "su_schedule_all calls s = fold (\<lambda>c. scheduleStyleUpdate (fst c) (snd c)) calls s"

text \<open>The fragments a list of calls passes for one element, in call order.\<close>

definition fragments_for :: "elem \<Rightarrow> (elem \<times> style) list \<Rightarrow> style list" where
  "fragments_for e calls = map snd (filter (\<lambda>c. fst c = e) calls)"

section \<open>The scroll coordinator\<close>

text \<open>
  One record holds the \<open>ScrollHandler\<close> object (the fields named as in the source) and the
  part of the browser it runs in. Of the browser: the scroll offset and the two heights,
  \<open>performance.now()\<close>, the elements the selectors find, the geometry a bounding-rect query
  would report, the pending animation-frame requests and timers with the next handle of each,
  the window's listeners, the style of every element, and three logs (geometry queries, style
  objects applied, exceptions that reached the event loop). Every \<open>getBoundingClientRect\<close> call
  returns a new object: \<open>rect_id\<close> is its identity.

  Fields of the handler that no modelled method reads are left out (\<open>parallaxState\<close>,
  \<open>lastCacheUpdate\<close>, \<open>resizeTimeout\<close>, which is never assigned, the easing presets, the
  smooth-scroll animator and the listeners on anchors and on the media query). A field that
  \<open>destroy\<close> sets to \<open>null\<close> is an option; the methods bound as own properties in the
  constructor and called through \<open>this\<close> by the modelled code are the four \<open>own_\<close> flags, false
  once the property is \<open>null\<close>. \<open>calculateParallaxTransform\<close> only formats a text from
  measurements: \<open>parallax_css\<close> stands for it.
\<close>

datatype frame_callback = ApplyStyles | ScrollTick

datatype timer_callback = ParallaxLater

record dom_rect =
  rect_id :: nat
  rect_top :: real
  rect_bottom :: real

record page =
  scrollY :: real
  innerHeight :: real
  scrollHeight :: real
  performance_now :: real
  media_reduced_motion :: bool
  progress_bar :: "elem option"
  parallax_elements :: "elem list"
  bounding_box :: "elem \<Rightarrow> real \<times> real"
  parallax_css :: "elem \<Rightarrow> dom_rect \<Rightarrow> css_value"
  next_rect :: nat
  rect_queries :: "elem list"
  next_frame_handle :: nat
  frame_requests :: "(nat \<times> frame_callback) list"
  next_timer_handle :: nat
  timers :: "(nat \<times> real \<times> timer_callback) list"
  window_listeners :: "string list"
  element_style :: "elem \<Rightarrow> style"
  style_writes :: "(elem \<times> style) list"
  uncaught :: "js_error list"
  lastScrollTop :: "real option"
  scrollDirection :: "string option"
  ticking :: bool
  scrollProgress :: "elem option"
  parallaxImages :: "elem list option"
  windowHeight :: "real option"
  documentHeight :: "real option"
  rectCache :: "(elem \<rightharpoonup> dom_rect \<times> real) option"
  cacheTimeout :: real
  pendingStyles :: "(elem \<times> style) list option"
  styleUpdateScheduled :: bool
  prefersReducedMotion :: bool
  lastParallaxUpdate :: "real option"
  parallaxUpdateInterval :: real
  debounce_timeout :: "nat option"
  own_updateScrollProgress :: bool
  own_updateParallax :: bool
  own_clearRectCache :: bool
  own_debouncedParallax :: bool

subsection \<open>Numbers\<close>

text \<open>\<open>null\<close> in arithmetic and comparisons is \<open>0\<close>.\<close>

definition ToNumber :: "real option \<Rightarrow> real" where
  "ToNumber x = (case x of None \<Rightarrow> 0 | Some r \<Rightarrow> r)"

text \<open>
  \<open>a / b\<close> for finite \<open>a\<close> and \<open>b\<close>: dividing by zero gives \<open>NaN\<close> or an infinity. \<open>n * k\<close> and
  \<open>n / k\<close> for a finite positive constant \<open>k\<close> keep a value that is not finite.
\<close>

definition js_divide :: "real \<Rightarrow> real \<Rightarrow> js_number" where
  "js_divide a b =
     (if b \<noteq> 0 then Finite (a / b)
      else if a = 0 then NaN
      else if a > 0 then PosInfinity else NegInfinity)"

definition js_times :: "js_number \<Rightarrow> real \<Rightarrow> js_number" where
  "js_times n k = (case n of Finite x \<Rightarrow> Finite (x * k) | _ \<Rightarrow> n)"

definition js_over :: "js_number \<Rightarrow> real \<Rightarrow> js_number" where
  "js_over n k = (case n of Finite x \<Rightarrow> Finite (x / k) | _ \<Rightarrow> n)"

text \<open>A boolean passed where a handle is expected is converted to a number: \<open>true\<close> is \<open>1\<close>.\<close>

definition handle_of_bool :: "bool \<Rightarrow> nat" where
  "handle_of_bool b = (if b then 1 else 0)"

subsection \<open>Browser operations\<close>

definition requestAnimationFrame :: "frame_callback \<Rightarrow> page \<Rightarrow> page" where
  "requestAnimationFrame cb p =
     p\<lparr>frame_requests := frame_requests p @ [(next_frame_handle p, cb)],
       next_frame_handle := next_frame_handle p + 1\<rparr>"

definition cancelAnimationFrame :: "nat \<Rightarrow> page \<Rightarrow> page" where
  "cancelAnimationFrame h p = p\<lparr>frame_requests := filter (\<lambda>r. fst r \<noteq> h) (frame_requests p)\<rparr>"

definition window_setTimeout :: "timer_callback \<Rightarrow> real \<Rightarrow> page \<Rightarrow> page" where
  "window_setTimeout cb delay p =
     p\<lparr>timers := timers p @ [(next_timer_handle p, performance_now p + delay, cb)],
       next_timer_handle := next_timer_handle p + 1\<rparr>"

definition window_clearTimeout :: "nat option \<Rightarrow> page \<Rightarrow> page" where
  "window_clearTimeout h p =
     (case h of None \<Rightarrow> p | Some i \<Rightarrow> p\<lparr>timers := filter (\<lambda>t. fst t \<noteq> i) (timers p)\<rparr>)"

definition getBoundingClientRect :: "elem \<Rightarrow> page \<Rightarrow> dom_rect \<times> page" where
  "getBoundingClientRect el p =
     (\<lparr>rect_id = next_rect p, rect_top = fst (bounding_box p el), rect_bottom = snd (bounding_box p el)\<rparr>,
      p\<lparr>next_rect := next_rect p + 1, rect_queries := rect_queries p @ [el]\<rparr>)"

subsection \<open>Style batching\<close>

definition sh_scheduleStyleUpdate :: "elem \<Rightarrow> style \<Rightarrow> page \<Rightarrow> js_error option \<times> page" where
  "sh_scheduleStyleUpdate element styles p =
     (case pendingStyles p of
        None \<Rightarrow> (Some (TypeError ''Cannot read properties of null (reading set)''), p)
      | Some ps \<Rightarrow>
          let p1 = p\<lparr>pendingStyles := Some (AList.update element (spread (map_of ps element) styles) ps)\<rparr>
          in if \<not> styleUpdateScheduled p1
             then (None, requestAnimationFrame ApplyStyles (p1\<lparr>styleUpdateScheduled := True\<rparr>))
             else (None, p1))"

text \<open>
  \<open>applyStyles\<close> takes the entries of the map in order and sets the properties of each style
  object on \<open>element.style\<close> one by one, as \<open>Object.assign\<close> does; \<open>style_writes\<close> logs the
  style object applied to the element.
\<close>

definition apply_entry :: "elem \<times> style \<Rightarrow> page \<Rightarrow> page" where
  "apply_entry w p =
     p\<lparr>element_style := (element_style p)(fst w := Object_assign (element_style p (fst w)) (snd w)),
       style_writes := style_writes p @ [w]\<rparr>"

definition applyStyles :: "page \<Rightarrow> js_error option \<times> page" where
  "applyStyles p =
     (case pendingStyles p of
        None \<Rightarrow> (Some (TypeError ''Cannot read properties of null (reading forEach)''), p)
      | Some ps \<Rightarrow>
          (None, (fold apply_entry ps p)\<lparr>pendingStyles := Some [], styleUpdateScheduled := False\<rparr>))"

subsection \<open>Geometry cache\<close>

definition getElementRect :: "elem \<Rightarrow> page \<Rightarrow> (js_error + dom_rect) \<times> page" where
  "getElementRect element p =
     (let now = performance_now p in
      case rectCache p of
        None \<Rightarrow> (Inl (TypeError ''Cannot read properties of null (reading get)''), p)
      | Some cache \<Rightarrow>
          (case cache element of
             Some (rect, timestamp) \<Rightarrow>
               if now - timestamp < cacheTimeout p then (Inr rect, p)
               else (let (rect, p1) = getBoundingClientRect element p
                     in (Inr rect, p1\<lparr>rectCache := Some (cache(element \<mapsto> (rect, now)))\<rparr>))
           | None \<Rightarrow>
               (let (rect, p1) = getBoundingClientRect element p
                in (Inr rect, p1\<lparr>rectCache := Some (cache(element \<mapsto> (rect, now)))\<rparr>))))"

definition clearRectCache :: "page \<Rightarrow> page" where
  "clearRectCache p = p\<lparr>rectCache := Some Map.empty\<rparr>"

subsection \<open>Scroll progress and parallax\<close>

definition updateScrollProgress :: "page \<Rightarrow> js_error option \<times> page" where
  "updateScrollProgress p =
     (case scrollProgress p of
        None \<Rightarrow> (None, p)
      | Some bar \<Rightarrow>
          let scrolled =
                js_times (js_divide (scrollY p) (ToNumber (documentHeight p) - ToNumber (windowHeight p))) 100
          in sh_scheduleStyleUpdate bar [(''transform'', ScaleX (js_over scrolled 100))] p)"

text \<open>A \<open>forEach\<close> whose callback may throw: the exception ends the loop.\<close>

fun forEach :: "('a \<Rightarrow> page \<Rightarrow> js_error option \<times> page) \<Rightarrow> 'a list \<Rightarrow> page \<Rightarrow> js_error option \<times> page" where
  "forEach f [] p = (None, p)"
| "forEach f (x # xs) p =
     (case f x p of
        (None, p') \<Rightarrow> forEach f xs p'
      | (Some e, p') \<Rightarrow> (Some e, p'))"

definition sh_schedule_all :: "(elem \<times> style) list \<Rightarrow> page \<Rightarrow> js_error option \<times> page" where
  "sh_schedule_all calls p = forEach (\<lambda>c. sh_scheduleStyleUpdate (fst c) (snd c)) calls p"

text \<open>The states in which no style update is pending: where a frame's batch starts.\<close>

definition su_idle :: "scheduler \<Rightarrow> bool" where
  "su_idle s \<longleftrightarrow> updates s = [] \<and> \<not> su_ticking s \<and> su_requested s = 0"

definition sh_idle :: "page \<Rightarrow> bool" where
  "sh_idle p \<longleftrightarrow> pendingStyles p = Some [] \<and> \<not> styleUpdateScheduled p \<and> frame_requests p = []"

text \<open>The first loop of \<open>updateParallax\<close>, which fills the local map \<open>updates\<close>.\<close>

fun parallax_updates ::
  "elem list \<Rightarrow> (elem \<times> style) list \<Rightarrow> page \<Rightarrow> (js_error + (elem \<times> style) list) \<times> page" where
  "parallax_updates [] acc p = (Inr acc, p)"
| "parallax_updates (img # imgs) acc p =
     (case getElementRect img p of
        (Inl e, p') \<Rightarrow> (Inl e, p')
      | (Inr rect, p') \<Rightarrow>
          if rect_top rect < ToNumber (windowHeight p') \<and> rect_bottom rect > 0
          then parallax_updates imgs
                 (AList.update img [(''transform'', parallax_css p' img rect)] acc) p'
          else parallax_updates imgs acc p')"

definition updateParallax :: "page \<Rightarrow> js_error option \<times> page" where
  "updateParallax p =
     (if prefersReducedMotion p then (None, p)
      else
        let now = performance_now p in
        if now - ToNumber (lastParallaxUpdate p) < parallaxUpdateInterval p then (None, p)
        else
          let p1 = p\<lparr>lastParallaxUpdate := Some now\<rparr> in
          case parallaxImages p1 of
            None \<Rightarrow> (Some (TypeError ''Cannot read properties of null (reading forEach)''), p1)
          | Some imgs \<Rightarrow>
              (case parallax_updates imgs [] p1 of
                 (Inl e, p2) \<Rightarrow> (Some e, p2)
               | (Inr ups, p2) \<Rightarrow> forEach (\<lambda>u. sh_scheduleStyleUpdate (fst u) (snd u)) ups p2))"

text \<open>
  \<open>this.debouncedParallax\<close> is \<open>debounce(this.updateParallax, 16)\<close>; \<open>debounce_timeout\<close> is the
  variable \<open>timeout\<close> of that closure. The timer callback \<open>later\<close> calls the function bound in
  the constructor, whatever \<open>this.updateParallax\<close> holds by then.
\<close>

definition debouncedParallax :: "page \<Rightarrow> page" where
  "debouncedParallax p =
     (let p1 = window_clearTimeout (debounce_timeout p) p
      in (window_setTimeout ParallaxLater 16 p1)\<lparr>debounce_timeout := Some (next_timer_handle p1)\<rparr>)"

definition parallax_later :: "page \<Rightarrow> js_error option \<times> page" where
  "parallax_later p = updateParallax (window_clearTimeout (debounce_timeout p) p)"

subsection \<open>Resize, construction, scroll\<close>

definition handleResize :: "page \<Rightarrow> js_error option \<times> page" where
  "handleResize p =
     (let p1 = p\<lparr>windowHeight := Some (innerHeight p), documentHeight := Some (scrollHeight p)\<rparr> in
      if \<not> own_clearRectCache p1
      then (Some (TypeError ''this.clearRectCache is not a function''), p1)
      else
        let p2 = clearRectCache p1;
            r = (if \<not> prefersReducedMotion p2
                 then (if \<not> own_updateParallax p2
                       then (Some (TypeError ''this.updateParallax is not a function''),
                             p2\<lparr>lastParallaxUpdate := Some 0\<rparr>)
                       else updateParallax (p2\<lparr>lastParallaxUpdate := Some 0\<rparr>))
                 else (None, p2))
        in case r of
             (Some e, p3) \<Rightarrow> (Some e, p3)
           | (None, p3) \<Rightarrow>
               if \<not> own_updateScrollProgress p3
               then (Some (TypeError ''this.updateScrollProgress is not a function''), p3)
               else updateScrollProgress p3)"

text \<open>
  \<open>new ScrollHandler()\<close>: the constructor's assignments, then \<open>init\<close>, which adds the scroll
  and resize listeners, measures once through \<open>handleResize\<close> and only then reads the
  reduced-motion preference (until then \<open>this.prefersReducedMotion\<close> is \<open>undefined\<close>, falsy).
\<close>

definition ScrollHandler_new :: "page \<Rightarrow> js_error option \<times> page" where
  "ScrollHandler_new p =
     (let p1 = p\<lparr>lastScrollTop := Some 0, scrollDirection := Some ''down'', ticking := False,
                scrollProgress := progress_bar p, parallaxImages := Some (parallax_elements p),
                windowHeight := None, documentHeight := None,
                rectCache := Some Map.empty, cacheTimeout := 16,
                pendingStyles := Some [], styleUpdateScheduled := False,
                prefersReducedMotion := False, lastParallaxUpdate := Some 0,
                parallaxUpdateInterval := 16, debounce_timeout := None,
                own_updateScrollProgress := True, own_updateParallax := True,
                own_clearRectCache := True, own_debouncedParallax := True\<rparr>;
          p2 = p1\<lparr>window_listeners := window_listeners p1 @ [''scroll'', ''resize'']\<rparr>
      in case handleResize p2 of
           (Some e, p3) \<Rightarrow> (Some e, p3)
         | (None, p3) \<Rightarrow> (None, p3\<lparr>prefersReducedMotion := media_reduced_motion p3\<rparr>))"

definition onScroll :: "page \<Rightarrow> page" where
  "onScroll p =
     (let st = scrollY p;
          p1 = p\<lparr>scrollDirection := Some (if st > ToNumber (lastScrollTop p) then ''down'' else ''up''),
                lastScrollTop := Some st\<rparr>
      in if \<not> ticking p1
         then (requestAnimationFrame ScrollTick p1)\<lparr>ticking := True\<rparr>
         else p1)"

text \<open>The arrow function \<open>onScroll\<close> passes to \<open>requestAnimationFrame\<close>.\<close>

definition scroll_tick :: "page \<Rightarrow> js_error option \<times> page" where
  "scroll_tick p =
     (if \<not> own_updateScrollProgress p
      then (Some (TypeError ''this.updateScrollProgress is not a function''), p)
      else
        case updateScrollProgress p of
          (Some e, p1) \<Rightarrow> (Some e, p1)
        | (None, p1) \<Rightarrow>
            if \<not> prefersReducedMotion p1
            then (if \<not> own_debouncedParallax p1
                  then (Some (TypeError ''this.debouncedParallax is not a function''), p1)
                  else (None, (debouncedParallax p1)\<lparr>ticking := False\<rparr>))
            else (None, p1\<lparr>ticking := False\<rparr>))"

subsection \<open>Cleanup\<close>

text \<open>
  \<open>destroy\<close>. The two \<open>cancelAnimationFrame\<close> calls are passed the flags
  \<open>this.styleUpdateScheduled\<close> and \<open>this.ticking\<close>, which are booleans: no handle returned by
  \<open>requestAnimationFrame\<close> is ever stored. The timer of \<open>debouncedParallax\<close> lives in a closure
  and is not cleared. The flags \<open>ticking\<close> and \<open>styleUpdateScheduled\<close> keep their values.
\<close>

definition destroy :: "page \<Rightarrow> js_error option \<times> page" where
  "destroy p =
     (let p1 = p\<lparr>window_listeners := filter (\<lambda>l. l \<noteq> ''scroll'' \<and> l \<noteq> ''resize'') (window_listeners p)\<rparr>;
          p2 = (if styleUpdateScheduled p1
                then cancelAnimationFrame (handle_of_bool (styleUpdateScheduled p1)) p1 else p1);
          p3 = (if ticking p2 then cancelAnimationFrame (handle_of_bool (ticking p2)) p2 else p2)
      in if \<not> own_clearRectCache p3
         then (Some (TypeError ''this.clearRectCache is not a function''), p3)
         else
           let p4 = clearRectCache p3 in
           case pendingStyles p4 of
             None \<Rightarrow> (Some (TypeError ''Cannot read properties of null (reading clear)''), p4)
           | Some ps \<Rightarrow>
               (None,
                p4\<lparr>pendingStyles := None,
                   scrollProgress := None, parallaxImages := None,
                   own_updateScrollProgress := False, own_updateParallax := False,
                   own_clearRectCache := False, own_debouncedParallax := False,
                   lastScrollTop := None, scrollDirection := None,
                   windowHeight := None, documentHeight := None,
                   lastParallaxUpdate := None,
                   rectCache := None\<rparr>))"

subsection \<open>The event loop\<close>

definition run_callback :: "frame_callback \<Rightarrow> page \<Rightarrow> js_error option \<times> page" where
  "run_callback cb p = (case cb of ApplyStyles \<Rightarrow> applyStyles p | ScrollTick \<Rightarrow> scroll_tick p)"

definition report :: "js_error option \<times> page \<Rightarrow> page" where
  "report r = (case r of (None, p) \<Rightarrow> p | (Some e, p) \<Rightarrow> p\<lparr>uncaught := uncaught p @ [e]\<rparr>)"

text \<open>
  An animation frame serves the requests pending when it starts, in order; a request made
  meanwhile waits for the next frame. An exception thrown by a callback is reported and the
  frame goes on.
\<close>

definition run_frame :: "page \<Rightarrow> page" where
  "run_frame p =
     fold (\<lambda>r q. report (run_callback (snd r) q)) (frame_requests p) (p\<lparr>frame_requests := []\<rparr>)"

text \<open>The window is scrolled to \<open>y\<close>; the scroll event reaches \<open>onScroll\<close> while it is a listener.\<close>

definition scroll_event :: "real \<Rightarrow> page \<Rightarrow> page" where
  "scroll_event y p =
     (let p1 = p\<lparr>scrollY := y\<rparr> in if ''scroll'' \<in> set (window_listeners p1) then onScroll p1 else p1)"

text \<open>Time passes; the timer with handle \<open>h\<close> fires if it is pending and due.\<close>

definition elapse :: "real \<Rightarrow> page \<Rightarrow> page" where
  "elapse dt p = p\<lparr>performance_now := performance_now p + dt\<rparr>"

definition run_timer :: "nat \<Rightarrow> page \<Rightarrow> page" where
  "run_timer h p =
     (case find (\<lambda>t. fst t = h) (timers p) of
        None \<Rightarrow> p
      | Some t \<Rightarrow>
          if fst (snd t) \<le> performance_now p
          then report (parallax_later (p\<lparr>timers := filter (\<lambda>u. fst u \<noteq> h) (timers p)\<rparr>))
          else p)"

text \<open>
  A page as loaded, before any script ran: a progress bar (element \<open>1\<close>), no parallax
  images, a document of height 3000 in a window of height 800, animation-frame and timer
  handles counting from \<open>1\<close>.
\<close>

definition page_loaded :: page where
  "page_loaded =
     \<lparr>scrollY = 0, innerHeight = 800, scrollHeight = 3000, performance_now = 100,
      media_reduced_motion = False, progress_bar = Some 1, parallax_elements = [],
      bounding_box = (\<lambda>e. (0, 0)), parallax_css = (\<lambda>e r. Css []),
      next_rect = 0, rect_queries = [],
      next_frame_handle = 1, frame_requests = [],
      next_timer_handle = 1, timers = [],
      window_listeners = [], element_style = (\<lambda>e. []), style_writes = [], uncaught = [],
      lastScrollTop = None, scrollDirection = None, ticking = False,
      scrollProgress = None, parallaxImages = None, windowHeight = None, documentHeight = None,
      rectCache = None, cacheTimeout = 0, pendingStyles = None, styleUpdateScheduled = False,
      prefersReducedMotion = False, lastParallaxUpdate = None, parallaxUpdateInterval = 0,
      debounce_timeout = None,
      own_updateScrollProgress = False, own_updateParallax = False,
      own_clearRectCache = False, own_debouncedParallax = False\<rparr>"

text \<open>A number in the closed interval from 0 to 1.\<close>

definition in_unit_interval :: "js_number \<Rightarrow> bool" where
  "in_unit_interval n = (case n of Finite x \<Rightarrow> 0 \<le> x \<and> x \<le> 1 | _ \<Rightarrow> False)"

text \<open>
  The object a map holds for an element after a list of fragments has been merged into what
  it held before: each call stores \<open>{...held, ...fragment}\<close>.
\<close>

definition merge_fragments :: "style option \<Rightarrow> style list \<Rightarrow> style option" where
  "merge_fragments held fs = foldl (\<lambda>acc f. Some (spread acc f)) held fs"

text \<open>The loaded page once the coordinator is constructed and the first frame is served.\<close>

definition page_ready :: page where
  "page_ready = run_frame (snd (ScrollHandler_new page_loaded))"

section \<open>Verification of the rate limiters\<close>








lemma db_advance_idle:
  "db_timers s = [] \<Longrightarrow> db_advance dt s = s\<lparr>db_clock := db_clock s + dt\<rparr>"
  by (simp add: db_advance_def)

lemma db_advance_quiet:
  "db_timers s = [(i, d, a)] \<Longrightarrow> db_clock s + dt < d \<Longrightarrow>
   db_advance dt s = s\<lparr>db_clock := db_clock s + dt\<rparr>"
  by (simp add: db_advance_def)

lemma db_advance_fire:
  assumes "db_timers s = [(i, d, a)]" and "d \<le> db_clock s + dt"
  shows "db_advance dt s =
         s\<lparr>db_clock := db_clock s + dt, db_timers := [], db_invoked := db_invoked s @ [(d, a)]\<rparr>"
proof -
  let ?s1 = "later d a (s\<lparr>db_timers := remove1 (i, d, a) (db_timers s)\<rparr>)"
  have t1: "db_timers ?s1 = []"
    using assms(1) by (simp add: later_def clearTimeout_def split: option.splits)
  have "db_advance dt s = db_advance_to (db_clock s + dt) ?s1"
    unfolding db_advance_def
    by (subst db_advance_to.simps) (simp add: assms)
  also have "\<dots> = ?s1\<lparr>db_clock := db_clock s + dt\<rparr>"
    by (subst db_advance_to.simps) (simp add: t1)
  finally show ?thesis
    using assms(1) by (simp add: later_def clearTimeout_def split: option.splits)
qed

lemma executedFunction_single:
  assumes "db_timers s = [] \<or> (\<exists>d a. db_timers s = [(i, d, a)] \<and> timeout s = Some i)"
  shows "executedFunction wait b s =
         s\<lparr>db_timers := [(db_next_id s, db_clock s + wait, b)],
           timeout := Some (db_next_id s), db_next_id := db_next_id s + 1\<rparr>"
  using assms by (auto simp: executedFunction_def clearTimeout_def split: option.splits)

text \<open>The state in the middle of a burst: one timer, set by the latest call.\<close>

lemma db_burst_pending:
  assumes "db_timers s = [(i, db_clock s + wait, a)]" "timeout s = Some i"
    and "\<forall>c \<in> set cs. fst c < wait"
  shows "\<exists>j. db_burst wait cs s =
           s\<lparr>db_clock := db_clock s + sum_list (map fst cs),
             db_timers := [(j, db_clock s + sum_list (map fst cs) + wait, snd (last ((0, a) # cs)))],
             timeout := Some j,
             db_next_id := db_next_id s + length cs\<rparr>"
  using assms
proof (induction cs arbitrary: s i a)
  case Nil
  have "s = s\<lparr>db_clock := db_clock s, db_timers := [(i, db_clock s + wait, a)],
             timeout := Some i, db_next_id := db_next_id s\<rparr>"
    using Nil by simp
  then show ?case by (auto simp: db_burst_def)
next
  case (Cons c cs)
  obtain g b where c: "c = (g, b)" by (cases c)
  have g: "g < wait" using Cons.prems(3) c by simp
  let ?s0 = "db_advance g s"
  have s0: "?s0 = s\<lparr>db_clock := db_clock s + g\<rparr>"
    using Cons.prems(1) g by (intro db_advance_quiet) auto
  let ?s1 = "executedFunction wait b ?s0"
  have s1: "?s1 = s\<lparr>db_clock := db_clock s + g,
                    db_timers := [(db_next_id s, db_clock s + g + wait, b)],
                    timeout := Some (db_next_id s), db_next_id := db_next_id s + 1\<rparr>"
    using Cons.prems(1,2)
    by (subst executedFunction_single [where i = i]) (auto simp: s0)
  have step: "db_burst wait (c # cs) s = db_burst wait cs ?s1"
    by (simp add: db_burst_def db_call_after_def c)
  have "\<exists>j. db_burst wait cs ?s1 =
           ?s1\<lparr>db_clock := db_clock ?s1 + sum_list (map fst cs),
             db_timers := [(j, db_clock ?s1 + sum_list (map fst cs) + wait, snd (last ((0, b) # cs)))],
             timeout := Some j,
             db_next_id := db_next_id ?s1 + length cs\<rparr>"
    using Cons.prems(3)
    by (intro Cons.IH [where i = "db_next_id s"]) (simp_all add: s1)
  then obtain j where j: "db_burst wait cs ?s1 =
           ?s1\<lparr>db_clock := db_clock ?s1 + sum_list (map fst cs),
             db_timers := [(j, db_clock ?s1 + sum_list (map fst cs) + wait, snd (last ((0, b) # cs)))],
             timeout := Some j,
             db_next_id := db_next_id ?s1 + length cs\<rparr>" ..
  have "db_burst wait (c # cs) s =
           s\<lparr>db_clock := db_clock s + sum_list (map fst (c # cs)),
             db_timers := [(j, db_clock s + sum_list (map fst (c # cs)) + wait, snd (last ((0, a) # c # cs)))],
             timeout := Some j,
             db_next_id := db_next_id s + length (c # cs)\<rparr>"
    unfolding step j by (simp add: s1 c add.assoc)
  then show ?case ..
qed

lemma debounce_util_burst:
  assumes idle: "db_timers s = []" and ne: "cs \<noteq> []"
    and gaps: "\<forall>c \<in> set (tl cs). fst c < wait"
  shows "db_invoked (db_burst wait cs s) = db_invoked s \<and>
         (\<exists>j. db_timers (db_burst wait cs s) =
                [(j, db_clock s + sum_list (map fst cs) + wait, snd (last cs))]) \<and>
         (dt < wait \<longrightarrow> db_invoked (db_advance dt (db_burst wait cs s)) = db_invoked s) \<and>
         (wait \<le> dt \<longrightarrow>
            db_invoked (db_advance dt (db_burst wait cs s)) =
              db_invoked s @ [(db_clock s + sum_list (map fst cs) + wait, snd (last cs))] \<and>
            db_timers (db_advance dt (db_burst wait cs s)) = [])"
proof -
  obtain g a cs' where cs: "cs = (g, a) # cs'" using ne by (cases cs) auto
  let ?s0 = "db_advance g s"
  have s0: "?s0 = s\<lparr>db_clock := db_clock s + g\<rparr>"
    using idle by (rule db_advance_idle)
  let ?s1 = "executedFunction wait a ?s0"
  have s1: "?s1 = s\<lparr>db_clock := db_clock s + g,
                    db_timers := [(db_next_id s, db_clock s + g + wait, a)],
                    timeout := Some (db_next_id s), db_next_id := db_next_id s + 1\<rparr>"
    using idle by (subst executedFunction_single [where i = 0]) (auto simp: s0)
  have step: "db_burst wait cs s = db_burst wait cs' ?s1"
    by (simp add: db_burst_def db_call_after_def cs)
  have "\<exists>j. db_burst wait cs' ?s1 =
           ?s1\<lparr>db_clock := db_clock ?s1 + sum_list (map fst cs'),
             db_timers := [(j, db_clock ?s1 + sum_list (map fst cs') + wait, snd (last ((0, a) # cs')))],
             timeout := Some j,
             db_next_id := db_next_id ?s1 + length cs'\<rparr>"
    using gaps by (intro db_burst_pending [where i = "db_next_id s"]) (simp_all add: s1 cs)
  then obtain j where "db_burst wait cs' ?s1 =
           ?s1\<lparr>db_clock := db_clock ?s1 + sum_list (map fst cs'),
             db_timers := [(j, db_clock ?s1 + sum_list (map fst cs') + wait, snd (last ((0, a) # cs')))],
             timeout := Some j,
             db_next_id := db_next_id ?s1 + length cs'\<rparr>" ..
  then have s2: "db_burst wait cs s =
           s\<lparr>db_clock := db_clock s + sum_list (map fst cs),
             db_timers := [(j, db_clock s + sum_list (map fst cs) + wait, snd (last cs))],
             timeout := Some j,
             db_next_id := db_next_id s + length cs\<rparr>"
    unfolding step by (simp add: s1 cs add.assoc)
  let ?s2 = "db_burst wait cs s"
  let ?d = "db_clock s + sum_list (map fst cs) + wait"
  have t2: "db_timers ?s2 = [(j, ?d, snd (last cs))]" and c2: "db_clock ?s2 = db_clock s + sum_list (map fst cs)"
    and i2: "db_invoked ?s2 = db_invoked s"
    by (simp_all add: s2)
  have quiet: "db_invoked (db_advance dt ?s2) = db_invoked s" if "dt < wait"
  proof -
    have "db_clock ?s2 + dt < ?d" using that c2 by linarith
    from db_advance_quiet [OF t2 this] show ?thesis by (simp add: i2)
  qed
  have fire: "db_invoked (db_advance dt ?s2) = db_invoked s @ [(?d, snd (last cs))] \<and>
              db_timers (db_advance dt ?s2) = []" if "wait \<le> dt"
  proof -
    have "?d \<le> db_clock ?s2 + dt" using that c2 by linarith
    from db_advance_fire [OF t2 this] show ?thesis by (simp add: i2)
  qed
  show ?thesis using i2 t2 quiet fire by blast
qed

lemma td_advance_idle:
  "td_timers s = [] \<Longrightarrow> td_advance dt s = s\<lparr>td_clock := td_clock s + dt\<rparr>"
  by (simp add: td_advance_def)

lemma td_advance_quiet:
  "td_timers s = [(i, d, ())] \<Longrightarrow> td_clock s + dt < d \<Longrightarrow>
   td_advance dt s = s\<lparr>td_clock := td_clock s + dt\<rparr>"
  by (simp add: td_advance_def)

lemma td_advance_fire:
  assumes "td_timers s = [(i, d, ())]" and "d \<le> td_clock s + dt"
  shows "td_advance dt s =
         s\<lparr>td_clock := td_clock s + dt, td_timers := [], td_timeout := None,
           td_invoked := td_invoked s @ [(d, lastArgs s)]\<rparr>"
proof -
  let ?s1 = "td_later d (s\<lparr>td_timers := remove1 (i, d, ()) (td_timers s)\<rparr>)"
  have t1: "td_timers ?s1 = []"
    using assms(1) by (simp add: td_later_def)
  have "td_advance dt s = td_advance_to (td_clock s + dt) ?s1"
    unfolding td_advance_def
    by (subst td_advance_to.simps) (simp add: assms)
  also have "\<dots> = ?s1\<lparr>td_clock := td_clock s + dt\<rparr>"
    by (subst td_advance_to.simps) (simp add: t1)
  finally show ?thesis
    using assms(1) by (simp add: td_later_def)
qed

lemma debounced_single:
  assumes "td_timers s = [] \<or> (\<exists>d. td_timers s = [(i, d, ())] \<and> td_timeout s = Some i \<and> i \<noteq> 0)"
  shows "debounced wait b s =
         s\<lparr>lastArgs := Some b, td_timers := [(td_next_id s, td_clock s + wait, ())],
           td_timeout := Some (td_next_id s), td_next_id := td_next_id s + 1\<rparr>"
  using assms
  by (auto simp: debounced_def clearTimeout_def truthy_handle_def split: option.splits)

lemma td_burst_pending:
  assumes "td_timers s = [(i, td_clock s + wait, ())]" "td_timeout s = Some i" "i \<noteq> 0"
    and "lastArgs s = Some a" "0 < td_next_id s"
    and "\<forall>c \<in> set cs. fst c < wait"
  shows "\<exists>j. td_burst wait cs s =
           s\<lparr>td_clock := td_clock s + sum_list (map fst cs),
             lastArgs := Some (snd (last ((0, a) # cs))),
             td_timers := [(j, td_clock s + sum_list (map fst cs) + wait, ())],
             td_timeout := Some j,
             td_next_id := td_next_id s + length cs\<rparr>"
  using assms
proof (induction cs arbitrary: s i a)
  case Nil
  have "s = s\<lparr>td_clock := td_clock s, lastArgs := Some a,
             td_timers := [(i, td_clock s + wait, ())],
             td_timeout := Some i, td_next_id := td_next_id s\<rparr>"
    using Nil by simp
  then show ?case by (auto simp: td_burst_def)
next
  case (Cons c cs)
  obtain g b where c: "c = (g, b)" by (cases c)
  have g: "g < wait" using Cons.prems(6) c by simp
  let ?s0 = "td_advance g s"
  have s0: "?s0 = s\<lparr>td_clock := td_clock s + g\<rparr>"
    using Cons.prems(1) g by (intro td_advance_quiet) auto
  let ?s1 = "debounced wait b ?s0"
  have s1: "?s1 = s\<lparr>td_clock := td_clock s + g, lastArgs := Some b,
                    td_timers := [(td_next_id s, td_clock s + g + wait, ())],
                    td_timeout := Some (td_next_id s), td_next_id := td_next_id s + 1\<rparr>"
    using Cons.prems(1,2,3)
    by (subst debounced_single [where i = i]) (auto simp: s0)
  have step: "td_burst wait (c # cs) s = td_burst wait cs ?s1"
    by (simp add: td_burst_def td_call_after_def c)
  have "\<exists>j. td_burst wait cs ?s1 =
           ?s1\<lparr>td_clock := td_clock ?s1 + sum_list (map fst cs),
             lastArgs := Some (snd (last ((0, b) # cs))),
             td_timers := [(j, td_clock ?s1 + sum_list (map fst cs) + wait, ())],
             td_timeout := Some j,
             td_next_id := td_next_id ?s1 + length cs\<rparr>"
    using Cons.prems(5,6)
    by (intro Cons.IH [where i = "td_next_id s"]) (simp_all add: s1)
  then obtain j where j: "td_burst wait cs ?s1 =
           ?s1\<lparr>td_clock := td_clock ?s1 + sum_list (map fst cs),
             lastArgs := Some (snd (last ((0, b) # cs))),
             td_timers := [(j, td_clock ?s1 + sum_list (map fst cs) + wait, ())],
             td_timeout := Some j,
             td_next_id := td_next_id ?s1 + length cs\<rparr>" ..
  have "td_burst wait (c # cs) s =
           s\<lparr>td_clock := td_clock s + sum_list (map fst (c # cs)),
             lastArgs := Some (snd (last ((0, a) # c # cs))),
             td_timers := [(j, td_clock s + sum_list (map fst (c # cs)) + wait, ())],
             td_timeout := Some j,
             td_next_id := td_next_id s + length (c # cs)\<rparr>"
    unfolding step j by (simp add: s1 c add.assoc)
  then show ?case ..
qed

lemma debounce_terminal_burst:
  assumes idle: "td_timers s = []" "0 < td_next_id s" and ne: "cs \<noteq> []"
    and gaps: "\<forall>c \<in> set (tl cs). fst c < wait"
  shows "td_invoked (td_burst wait cs s) = td_invoked s \<and>
         (\<exists>j. td_timers (td_burst wait cs s) =
                [(j, td_clock s + sum_list (map fst cs) + wait, ())]) \<and>
         (dt < wait \<longrightarrow> td_invoked (td_advance dt (td_burst wait cs s)) = td_invoked s) \<and>
         (wait \<le> dt \<longrightarrow>
            td_invoked (td_advance dt (td_burst wait cs s)) =
              td_invoked s @ [(td_clock s + sum_list (map fst cs) + wait, Some (snd (last cs)))] \<and>
            td_timers (td_advance dt (td_burst wait cs s)) = [])"
proof -
  obtain g a cs' where cs: "cs = (g, a) # cs'" using ne by (cases cs) auto
  let ?s0 = "td_advance g s"
  have s0: "?s0 = s\<lparr>td_clock := td_clock s + g\<rparr>"
    using idle(1) by (rule td_advance_idle)
  let ?s1 = "debounced wait a ?s0"
  have s1: "?s1 = s\<lparr>td_clock := td_clock s + g, lastArgs := Some a,
                    td_timers := [(td_next_id s, td_clock s + g + wait, ())],
                    td_timeout := Some (td_next_id s), td_next_id := td_next_id s + 1\<rparr>"
    using idle(1) by (subst debounced_single [where i = 0]) (auto simp: s0)
  have step: "td_burst wait cs s = td_burst wait cs' ?s1"
    by (simp add: td_burst_def td_call_after_def cs)
  have "\<exists>j. td_burst wait cs' ?s1 =
           ?s1\<lparr>td_clock := td_clock ?s1 + sum_list (map fst cs'),
             lastArgs := Some (snd (last ((0, a) # cs'))),
             td_timers := [(j, td_clock ?s1 + sum_list (map fst cs') + wait, ())],
             td_timeout := Some j,
             td_next_id := td_next_id ?s1 + length cs'\<rparr>"
    using gaps idle(2)
    by (intro td_burst_pending [where i = "td_next_id s"]) (simp_all add: s1 cs)
  then obtain j where "td_burst wait cs' ?s1 =
           ?s1\<lparr>td_clock := td_clock ?s1 + sum_list (map fst cs'),
             lastArgs := Some (snd (last ((0, a) # cs'))),
             td_timers := [(j, td_clock ?s1 + sum_list (map fst cs') + wait, ())],
             td_timeout := Some j,
             td_next_id := td_next_id ?s1 + length cs'\<rparr>" ..
  then have s2: "td_burst wait cs s =
           s\<lparr>td_clock := td_clock s + sum_list (map fst cs),
             lastArgs := Some (snd (last cs)),
             td_timers := [(j, td_clock s + sum_list (map fst cs) + wait, ())],
             td_timeout := Some j,
             td_next_id := td_next_id s + length cs\<rparr>"
    unfolding step by (simp add: s1 cs add.assoc)
  let ?s2 = "td_burst wait cs s"
  let ?d = "td_clock s + sum_list (map fst cs) + wait"
  have t2: "td_timers ?s2 = [(j, ?d, ())]" and c2: "td_clock ?s2 = td_clock s + sum_list (map fst cs)"
    and i2: "td_invoked ?s2 = td_invoked s" and l2: "lastArgs ?s2 = Some (snd (last cs))"
    by (simp_all add: s2)
  have quiet: "td_invoked (td_advance dt ?s2) = td_invoked s" if "dt < wait"
  proof -
    have "td_clock ?s2 + dt < ?d" using that c2 by linarith
    from td_advance_quiet [OF t2 this] show ?thesis by (simp add: i2)
  qed
  have fire: "td_invoked (td_advance dt ?s2) = td_invoked s @ [(?d, Some (snd (last cs)))] \<and>
              td_timers (td_advance dt ?s2) = []" if "wait \<le> dt"
  proof -
    have "?d \<le> td_clock ?s2 + dt" using that c2 by linarith
    from td_advance_fire [OF t2 this] show ?thesis by (simp add: i2 l2)
  qed
  show ?thesis using i2 t2 quiet fire by blast
qed

text \<open>
  C5. Take a debounce wrapper with no timer pending (a fresh wrapper is such) and a burst of
  calls in which every call after the first comes less than \<open>wait\<close> ms after the one before.
  During the burst \<open>func\<close> is never invoked, and after each call exactly one timer is pending,
  due \<open>wait\<close> ms after that call. If then less than \<open>wait\<close> ms pass, \<open>func\<close> has still not run;
  once \<open>wait\<close> ms have passed, \<open>func\<close> has run exactly once, at the time of the last call plus
  \<open>wait\<close>, with the arguments of the last call, and no timer is left. This holds for the
  debounce of the utilities (the scroll coordinator's is the same code) and for the
  terminal's.
\<close>

theorem debounce_trailing_edge:
  assumes ne: "cs \<noteq> []" and gaps: "\<forall>c \<in> set (tl cs). fst c < wait"
  shows "(db_timers s = [] \<longrightarrow>
            db_invoked (db_burst wait cs s) = db_invoked s \<and>
            (\<exists>j. db_timers (db_burst wait cs s) =
                   [(j, db_clock s + sum_list (map fst cs) + wait, snd (last cs))]) \<and>
            (dt < wait \<longrightarrow> db_invoked (db_advance dt (db_burst wait cs s)) = db_invoked s) \<and>
            (wait \<le> dt \<longrightarrow>
               db_invoked (db_advance dt (db_burst wait cs s)) =
                 db_invoked s @ [(db_clock s + sum_list (map fst cs) + wait, snd (last cs))] \<and>
               db_timers (db_advance dt (db_burst wait cs s)) = [])) \<and>
         (td_timers u = [] \<and> 0 < td_next_id u \<longrightarrow>
            td_invoked (td_burst wait cs u) = td_invoked u \<and>
            (\<exists>j. td_timers (td_burst wait cs u) =
                   [(j, td_clock u + sum_list (map fst cs) + wait, ())]) \<and>
            (dt < wait \<longrightarrow> td_invoked (td_advance dt (td_burst wait cs u)) = td_invoked u) \<and>
            (wait \<le> dt \<longrightarrow>
               td_invoked (td_advance dt (td_burst wait cs u)) =
                 td_invoked u @ [(td_clock u + sum_list (map fst cs) + wait, Some (snd (last cs)))] \<and>
               td_timers (td_advance dt (td_burst wait cs u)) = []))"
  using debounce_util_burst [OF _ ne gaps, of s dt]
    debounce_terminal_burst [OF _ _ ne gaps, of u dt]
  by blast

theorem debounce_trailing_edge_witness:
  "db_invoked (db_advance 80 (db_burst 80 [(0, 1), (50, 2), (50, 3)] debounce_init)) = [(180, 3::nat)] \<and>
   db_invoked (db_advance 79 (db_burst 80 [(0, 1), (50, 2), (50, 3)] debounce_init)) = ([] :: (nat \<times> nat) list) \<and>
   td_invoked (td_advance 80 (td_burst 80 [(0, 1), (50, 2), (50, 3)] debounced_init)) = [(180, Some (3::nat))]"
proof -
  have i1: "db_timers (debounce_init :: nat debounce_env) = []" by (simp add: debounce_init_def)
  have i2: "td_timers (debounced_init :: nat debounced_env) = [] \<and>
      0 < td_next_id (debounced_init :: nat debounced_env)"
    by (simp add: debounced_init_def)
  have ne: "[(0, 1), (50, 2), (50, 3::nat)] \<noteq> ([] :: (nat \<times> nat) list)" by simp
  have gaps: "\<forall>c \<in> set (tl [(0::nat, 1::nat), (50, 2), (50, 3)]). fst c < 80" by simp
  show ?thesis
    using debounce_trailing_edge [OF ne gaps, where s = "debounce_init :: nat debounce_env"
        and u = "debounced_init :: nat debounced_env" and dt = 80]
      debounce_trailing_edge [OF ne gaps, where s = "debounce_init :: nat debounce_env"
        and u = "debounced_init :: nat debounced_env" and dt = 79] i1 i2
    by (simp add: debounce_init_def debounced_init_def)
qed

section \<open>Verification of the terminal singleton\<close>

lemma getInstance_existing:
  "static_instance c = Some r \<Longrightarrow> getInstance c = (Inr r, c)"
  by (simp add: getInstance_def)

lemma getInstance_fresh:
  "static_instance c = None \<Longrightarrow>
   getInstance c =
     (Inr (next_ref c),
      c\<lparr>initializing := False, heap := (heap c)(next_ref c \<mapsto> Terminal_init c),
        next_ref := next_ref c + 1, static_instance := Some (next_ref c)\<rparr>)"
  by (simp add: getInstance_def Terminal_new_def Terminal_init_def)

lemma accessor_calls_existing:
  "static_instance c = Some r \<Longrightarrow> accessor_calls n c = (replicate n (Inr r), c)"
  by (induction n) (simp_all add: getInstance_existing)

lemma accessor_calls_Suc:
  assumes "class_ok c"
  shows "\<exists>r. accessor_calls (Suc n) c = (replicate (Suc n) (Inr r), snd (getInstance c)) \<and>
             static_instance (snd (getInstance c)) = Some r \<and> class_ok (snd (getInstance c))"
proof (cases "static_instance c")
  case None
  let ?r = "next_ref c"
  have g: "getInstance c = (Inr ?r, c\<lparr>initializing := False, heap := (heap c)(?r \<mapsto> Terminal_init c),
        next_ref := ?r + 1, static_instance := Some ?r\<rparr>)"
    using None by (rule getInstance_fresh)
  have i: "static_instance (snd (getInstance c)) = Some ?r" by (simp add: g)
  have "accessor_calls (Suc n) c = (replicate (Suc n) (Inr ?r), snd (getInstance c))"
    using accessor_calls_existing [OF i, of n] by (simp add: g)
  moreover have "class_ok (snd (getInstance c))" by (simp add: g class_ok_def)
  ultimately show ?thesis using i by blast
next
  case (Some r)
  have g: "getInstance c = (Inr r, c)" using Some by (rule getInstance_existing)
  have "accessor_calls (Suc n) c = (replicate (Suc n) (Inr r), snd (getInstance c))"
    using accessor_calls_existing [OF Some, of n] by (simp add: g)
  then show ?thesis using Some assms by (auto simp: g)
qed

text \<open>
  C7. In a state the class can be in between static calls, any number of accessor calls in a
  row return one and the same instance reference; calling the constructor directly throws,
  before and after; and after \<open>resetInstance\<close> the next accessor call returns a reference to
  a new object, different from the one returned before the reset.
\<close>

theorem singleton_lifecycle:
  assumes ok: "class_ok c"
  shows "\<exists>r r'. fst (accessor_calls (Suc n) c) = replicate (Suc n) (Inr r) \<and>
           Terminal_new c = Inl (Error ''Terminal must be initialized using Terminal.getInstance()'') \<and>
           Terminal_new (snd (accessor_calls (Suc n) c)) =
             Inl (Error ''Terminal must be initialized using Terminal.getInstance()'') \<and>
           fst (getInstance (resetInstance (snd (accessor_calls (Suc n) c)))) = Inr r' \<and> r' \<noteq> r \<and>
           class_ok (snd (getInstance (resetInstance (snd (accessor_calls (Suc n) c)))))"
proof -
  let ?c1 = "snd (getInstance c)"
  from accessor_calls_Suc [OF ok, of n] obtain r where
    calls: "accessor_calls (Suc n) c = (replicate (Suc n) (Inr r), ?c1)"
    and inst: "static_instance ?c1 = Some r" and ok1: "class_ok ?c1"
    by blast
  have new0: "Terminal_new c = Inl (Error ''Terminal must be initialized using Terminal.getInstance()'')"
    using ok by (simp add: Terminal_new_def class_ok_def)
  have new1: "Terminal_new ?c1 = Inl (Error ''Terminal must be initialized using Terminal.getInstance()'')"
    using ok1 by (simp add: Terminal_new_def class_ok_def)
  let ?c2 = "resetInstance ?c1"
  have none2: "static_instance ?c2 = None" by (simp add: resetInstance_def)
  have lt: "r < next_ref ?c2" using ok1 inst by (simp add: class_ok_def resetInstance_def)
  have ok2: "class_ok ?c2" using ok1 by (simp add: class_ok_def resetInstance_def)
  have g2: "fst (getInstance ?c2) = Inr (next_ref ?c2)"
    using getInstance_fresh [OF none2] by simp
  have ok3: "class_ok (snd (getInstance ?c2))"
    using getInstance_fresh [OF none2] by (simp add: class_ok_def)
  have "next_ref ?c2 \<noteq> r" using lt by simp
  then show ?thesis using calls new0 new1 g2 ok3 by auto
qed

theorem singleton_lifecycle_witness:
  "class_ok (class_loaded ''/'' ''d'') \<and>
   fst (accessor_calls 3 (class_loaded ''/'' ''d'')) = [Inr 0, Inr 0, Inr 0] \<and>
   Terminal_new (class_loaded ''/'' ''d'') =
     Inl (Error ''Terminal must be initialized using Terminal.getInstance()'') \<and>
   fst (getInstance (resetInstance (snd (accessor_calls 3 (class_loaded ''/'' ''d''))))) = Inr 1"
proof -
  have ok: "class_ok (class_loaded ''/'' ''d'')" by (simp add: class_ok_def class_loaded_def)
  have ev: "accessor_calls 3 (class_loaded ''/'' ''d'') =
      ([Inr 0, Inr 0, Inr 0],
       (class_loaded ''/'' ''d'')\<lparr>initializing := False,
          heap := [0 \<mapsto> Terminal_init (class_loaded ''/'' ''d'')],
          next_ref := 1, static_instance := Some 0\<rparr>)"
    by (simp add: eval_nat_numeral class_loaded_def getInstance_def Terminal_new_def
        Terminal_init_def)
  from singleton_lifecycle [OF ok, of 2] ok show ?thesis
    by (simp add: ev) (simp add: class_loaded_def getInstance_def Terminal_new_def resetInstance_def)
qed

section \<open>Verification of the command state machine\<close>

lemma addToHistory_fields [simp]:
  "commandHistory (addToHistory x ty t) = commandHistory t"
  "historyIndex (addToHistory x ty t) = historyIndex t"
  "input_value (addToHistory x ty t) = input_value t"
  "history_lines (addToHistory x ty t) = history_lines t @ [(x, ty)]"
  by (simp_all add: addToHistory_def)

lemma fold_addToHistory_fields [simp]:
  "commandHistory (fold (\<lambda>l. addToHistory (f l) ty) ls t) = commandHistory t"
  "historyIndex (fold (\<lambda>l. addToHistory (f l) ty) ls t) = historyIndex t"
  "input_value (fold (\<lambda>l. addToHistory (f l) ty) ls t) = input_value t"
  "history_lines (fold (\<lambda>l. addToHistory (f l) ty) ls t) =
     history_lines t @ map (\<lambda>l. (f l, ty)) ls"
  by (induction ls arbitrary: t) simp_all

lemma addLines_fields [simp]:
  "commandHistory (addLines ls t) = commandHistory t"
  "historyIndex (addLines ls t) = historyIndex t"
  "input_value (addLines ls t) = input_value t"
  "history_lines (addLines ls t) = history_lines t @ map (\<lambda>l. (l, [])) ls"
  by (simp_all add: addLines_def)

lemma call_command_cursor:
  "commandHistory (snd (call_command cmd args t)) = commandHistory t \<and>
   historyIndex (snd (call_command cmd args t)) = historyIndex t"
  by (cases cmd)
    (simp_all add: showHelp_def clearHistory_def navigateTo_def listSections_def showWhoami_def
      showDate_def echo_def showSkills_def showSocial_def showCurrentPath_def catFile_def
      changeDirectory_def split: list.splits option.splits)

lemma executeCommand_cursor:
  "commandHistory (executeCommand U t) = commandHistory t \<and>
   historyIndex (executeCommand U t) = historyIndex t"
proof -
  have "commandHistory (case call_command cmd args t1 of
                  (None, t2) \<Rightarrow> t2\<lparr>input_value := []\<rparr>
                | (Some e, t2) \<Rightarrow> addToHistory ''Failed to execute command'' ''error'' t2)
        = commandHistory t1 \<and>
        historyIndex (case call_command cmd args t1 of
                  (None, t2) \<Rightarrow> t2\<lparr>input_value := []\<rparr>
                | (Some e, t2) \<Rightarrow> addToHistory ''Failed to execute command'' ''error'' t2)
        = historyIndex t1" for cmd args t1
    using call_command_cursor [of cmd args t1]
    by (cases "call_command cmd args t1") (auto split: option.splits)
  then show ?thesis
    by (simp add: executeCommand_def Let_def split: property.splits)
qed

lemma handleTabCompletion_cursor:
  "commandHistory (handleTabCompletion U t) = commandHistory t \<and>
   historyIndex (handleTabCompletion U t) = historyIndex t"
  by (simp add: handleTabCompletion_def Let_def)

lemma handleKeydown_cursor_ok: "cursor_ok t \<Longrightarrow> cursor_ok (handleKeydown U k t)"
  by (cases k)
    (auto simp: cursor_ok_def Let_def executeCommand_cursor handleTabCompletion_cursor)

lemma terminal_events_cursor_ok: "cursor_ok t \<Longrightarrow> cursor_ok (terminal_events U evs t)"
proof (induction evs arbitrary: t)
  case Nil
  then show ?case by (simp add: terminal_events_def)
next
  case (Cons ev evs)
  have "cursor_ok (terminal_event U ev t)"
    using Cons.prems by (cases ev) (simp_all add: handleKeydown_cursor_ok, simp add: cursor_ok_def)
  from Cons.IH [OF this] show ?case by (simp add: terminal_events_def)
qed

lemma arrows_keep_history:
  "list_all arrow_key ks \<Longrightarrow> commandHistory (fold (handleKeydown U) ks t) = commandHistory t"
  by (induction ks arbitrary: t) (auto simp: arrow_key_def)

lemma arrows_cursor_ok:
  "list_all arrow_key ks \<Longrightarrow> cursor_ok t \<Longrightarrow> cursor_ok (fold (handleKeydown U) ks t)"
  by (induction ks arbitrary: t) (simp_all add: handleKeydown_cursor_ok)

lemma arrows_empty_at_rest:
  "list_all arrow_key ks \<Longrightarrow> cursor_ok t \<Longrightarrow> (historyIndex t = -1 \<longrightarrow> input_value t = []) \<Longrightarrow>
   historyIndex (fold (handleKeydown U) ks t) = -1 \<longrightarrow>
   input_value (fold (handleKeydown U) ks t) = []"
proof (induction ks arbitrary: t)
  case Nil
  then show ?case by simp
next
  case (Cons k ks)
  have "historyIndex (handleKeydown U k t) = -1 \<longrightarrow> input_value (handleKeydown U k t) = []"
    using Cons.prems by (auto simp: arrow_key_def cursor_ok_def)
  moreover have "cursor_ok (handleKeydown U k t)"
    using Cons.prems(2) by (rule handleKeydown_cursor_ok)
  ultimately show ?case using Cons.IH [of "handleKeydown U k t"] Cons.prems(1) by simp
qed

lemma executeCommand_blank: "trim (input_value t) = [] \<Longrightarrow> executeCommand U t = t"
  by (simp add: executeCommand_def)

lemma handleKeydown_Enter_push:
  "trim (input_value t) = c \<Longrightarrow> c \<noteq> [] \<Longrightarrow>
   commandHistory (handleKeydown U Enter t) = c # commandHistory t \<and>
   historyIndex (handleKeydown U Enter t) = -1"
  by (auto simp: Let_def executeCommand_cursor)

lemma handleKeydown_Enter_blank:
  "trim (input_value t) = [] \<Longrightarrow> handleKeydown U Enter t = t"
  by (simp add: Let_def executeCommand_blank)

text \<open>
  C6, as amended. Take a terminal whose cursor is within its bounds and whose history has
  length \<open>H\<close>. After any sequence of arrow-up and arrow-down presses the cursor is between
  \<open>-1\<close> and \<open>H - 1\<close> and the history is unchanged; if the input was empty whenever the cursor
  was at \<open>-1\<close>, it still is. An arrow-down that takes the cursor from \<open>0\<close> to \<open>-1\<close> empties the
  input. Enter on an input that is not blank puts the trimmed input at the front of the
  history and sets the cursor to \<open>-1\<close>. Enter on a blank input, empty or white space only,
  changes nothing: the history, the cursor and the transcript stay as they are. The cursor
  stays within its bounds under every sequence of key presses and edits.
\<close>

theorem history_cursor_bounds:
  assumes ok: "cursor_ok t" and H: "length (commandHistory t) = H"
  shows "(list_all arrow_key ks \<longrightarrow>
            -1 \<le> historyIndex (fold (handleKeydown U) ks t) \<and>
            historyIndex (fold (handleKeydown U) ks t) \<le> int H - 1 \<and>
            commandHistory (fold (handleKeydown U) ks t) = commandHistory t \<and>
            ((historyIndex t = -1 \<longrightarrow> input_value t = []) \<longrightarrow>
             historyIndex (fold (handleKeydown U) ks t) = -1 \<longrightarrow>
             input_value (fold (handleKeydown U) ks t) = [])) \<and>
         (historyIndex t = 0 \<longrightarrow>
            historyIndex (handleKeydown U ArrowDown t) = -1 \<and>
            input_value (handleKeydown U ArrowDown t) = []) \<and>
         (trim (input_value t) \<noteq> [] \<longrightarrow>
            commandHistory (handleKeydown U Enter t) = trim (input_value t) # commandHistory t \<and>
            historyIndex (handleKeydown U Enter t) = -1) \<and>
         (trim (input_value t) = [] \<longrightarrow> handleKeydown U Enter t = t) \<and>
         cursor_ok (terminal_events U evs t)"
proof -
  have arrows: "-1 \<le> historyIndex (fold (handleKeydown U) ks t) \<and>
            historyIndex (fold (handleKeydown U) ks t) \<le> int H - 1 \<and>
            commandHistory (fold (handleKeydown U) ks t) = commandHistory t"
    if "list_all arrow_key ks"
    using arrows_cursor_ok [OF that ok, of U] arrows_keep_history [OF that, of U t] H
    by (simp add: cursor_ok_def)
  have down: "historyIndex (handleKeydown U ArrowDown t) = -1 \<and>
            input_value (handleKeydown U ArrowDown t) = []" if "historyIndex t = 0"
    using that by simp
  have enter: "commandHistory (handleKeydown U Enter t) = trim (input_value t) # commandHistory t \<and>
            historyIndex (handleKeydown U Enter t) = -1" if "trim (input_value t) \<noteq> []"
    using handleKeydown_Enter_push [OF refl that] .
  have blank: "handleKeydown U Enter t = t" if "trim (input_value t) = []"
    using that by (rule handleKeydown_Enter_blank)
  show ?thesis
    using arrows arrows_empty_at_rest [of ks t U, OF _ ok] down enter blank
      terminal_events_cursor_ok [OF ok, of U evs]
    by blast
qed

theorem history_cursor_bounds_witness:
  "\<forall>U. cursor_ok (terminal_fresh\<lparr>commandHistory := [''ls'', ''help'']\<rparr>) \<and>
   historyIndex (fold (handleKeydown U) [ArrowUp, ArrowUp, ArrowUp]
       (terminal_fresh\<lparr>commandHistory := [''ls'', ''help'']\<rparr>)) = 1 \<and>
   historyIndex (fold (handleKeydown U) [ArrowUp, ArrowUp, ArrowUp, ArrowDown, ArrowDown, ArrowDown]
       (terminal_fresh\<lparr>commandHistory := [''ls'', ''help'']\<rparr>)) = -1 \<and>
   input_value (fold (handleKeydown U) [ArrowUp, ArrowUp, ArrowUp, ArrowDown, ArrowDown, ArrowDown]
       (terminal_fresh\<lparr>commandHistory := [''ls'', ''help'']\<rparr>)) = [] \<and>
   commandHistory (fold (handleKeydown U)
       [ArrowUp, ArrowUp, ArrowUp, ArrowDown, ArrowDown, ArrowDown]
       (terminal_fresh\<lparr>commandHistory := [''ls'', ''help'']\<rparr>)) = [''ls'', ''help''] \<and>
   input_value (handleKeydown U ArrowDown
       (terminal_fresh\<lparr>commandHistory := [''ls'', ''help''], historyIndex := 0,
          input_value := ''ls''\<rparr>)) = [] \<and>
   commandHistory (handleKeydown U Enter
       (terminal_fresh\<lparr>commandHistory := [''ls'', ''help''], historyIndex := 1,
          input_value := '' pwd ''\<rparr>)) = [''pwd'', ''ls'', ''help''] \<and>
   historyIndex (handleKeydown U Enter
       (terminal_fresh\<lparr>commandHistory := [''ls'', ''help''], historyIndex := 1,
          input_value := '' pwd ''\<rparr>)) = -1 \<and>
   handleKeydown U Enter
       (terminal_fresh\<lparr>commandHistory := [''ls'', ''help''], historyIndex := 1,
          input_value := ''  ''\<rparr>) =
     terminal_fresh\<lparr>commandHistory := [''ls'', ''help''], historyIndex := 1,
          input_value := ''  ''\<rparr>"
proof
  fix U :: "string \<Rightarrow> string"
  let ?t = "terminal_fresh\<lparr>commandHistory := [''ls'', ''help'']\<rparr>"
  let ?w = "terminal_fresh\<lparr>commandHistory := [''ls'', ''help''], historyIndex := 0,
          input_value := ''ls''\<rparr>"
  let ?u = "terminal_fresh\<lparr>commandHistory := [''ls'', ''help''], historyIndex := 1,
          input_value := '' pwd ''\<rparr>"
  let ?v = "terminal_fresh\<lparr>commandHistory := [''ls'', ''help''], historyIndex := 1,
          input_value := ''  ''\<rparr>"
  let ?ks = "[ArrowUp, ArrowUp, ArrowUp, ArrowDown, ArrowDown, ArrowDown]"
  have ok: "cursor_ok ?t" and ok0: "cursor_ok ?w" and ok': "cursor_ok ?u" and ok'': "cursor_ok ?v"
    by (simp_all add: cursor_ok_def terminal_fresh_def Terminal_init_def)
  have len: "length (commandHistory ?u) = 2" and len': "length (commandHistory ?v) = 2"
    and len0: "length (commandHistory ?t) = 2" and len1: "length (commandHistory ?w) = 2"
    by simp_all
  have tr: "trim (input_value ?u) = ''pwd''"
    by (simp add: trim_def trimStart_def trimEnd_def js_whitespace_def)
  have tr': "trim (input_value ?v) = []"
    by (simp add: trim_def trimStart_def trimEnd_def js_whitespace_def)
  have up: "historyIndex (fold (handleKeydown U) [ArrowUp, ArrowUp, ArrowUp] ?t) = 1"
    by (simp add: terminal_fresh_def Terminal_init_def history_at_def)
  have down: "historyIndex (fold (handleKeydown U) ?ks ?t) = -1"
    by (simp add: terminal_fresh_def Terminal_init_def history_at_def)
  have arrows: "list_all arrow_key ?ks" by (simp add: arrow_key_def)
  have start: "historyIndex ?t = -1 \<longrightarrow> input_value ?t = []"
    by (simp add: terminal_fresh_def Terminal_init_def)
  have "list_all arrow_key ?ks \<longrightarrow>
            commandHistory (fold (handleKeydown U) ?ks ?t) = commandHistory ?t \<and>
            ((historyIndex ?t = -1 \<longrightarrow> input_value ?t = []) \<longrightarrow>
             historyIndex (fold (handleKeydown U) ?ks ?t) = -1 \<longrightarrow>
             input_value (fold (handleKeydown U) ?ks ?t) = [])"
    using history_cursor_bounds [OF ok len0, of ?ks U "[]"] by blast
  with arrows start down
  have rest: "input_value (fold (handleKeydown U) ?ks ?t) = []"
    and same: "commandHistory (fold (handleKeydown U) ?ks ?t) = commandHistory ?t"
    by blast+
  have "historyIndex ?w = 0 \<longrightarrow> input_value (handleKeydown U ArrowDown ?w) = []"
    using history_cursor_bounds [OF ok0 len1, of "[]" U "[]"] by blast
  then have step: "input_value (handleKeydown U ArrowDown ?w) = []"
    by simp
  have "trim (input_value ?u) \<noteq> [] \<longrightarrow>
          commandHistory (handleKeydown U Enter ?u) = trim (input_value ?u) # commandHistory ?u \<and>
          historyIndex (handleKeydown U Enter ?u) = -1"
    using history_cursor_bounds [OF ok' len, of "[]" U "[]"] by blast
  then have enter: "commandHistory (handleKeydown U Enter ?u) = [''pwd'', ''ls'', ''help''] \<and>
          historyIndex (handleKeydown U Enter ?u) = -1"
    unfolding tr by simp
  have "trim (input_value ?v) = [] \<longrightarrow> handleKeydown U Enter ?v = ?v"
    using history_cursor_bounds [OF ok'' len', of "[]" U "[]"] by blast
  then have blank: "handleKeydown U Enter ?v = ?v"
    unfolding tr' by simp
  have same': "commandHistory (fold (handleKeydown U) ?ks ?t) = [''ls'', ''help'']"
    unfolding same by simp
  show "cursor_ok ?t \<and>
   historyIndex (fold (handleKeydown U) [ArrowUp, ArrowUp, ArrowUp] ?t) = 1 \<and>
   historyIndex (fold (handleKeydown U) ?ks ?t) = -1 \<and>
   input_value (fold (handleKeydown U) ?ks ?t) = [] \<and>
   commandHistory (fold (handleKeydown U) ?ks ?t) = [''ls'', ''help''] \<and>
   input_value (handleKeydown U ArrowDown ?w) = [] \<and>
   commandHistory (handleKeydown U Enter ?u) = [''pwd'', ''ls'', ''help''] \<and>
   historyIndex (handleKeydown U Enter ?u) = -1 \<and>
   handleKeydown U Enter ?v = ?v"
    using ok up down rest same' step enter blank by blast
qed

text \<open>
  C6 as stated fails on a line that is not empty but blank. The user submits \<open>ls\<close>, presses
  arrow-up, which puts the cursor at \<open>0\<close>, replaces the input by one space and presses Enter:
  the line is not pushed and the cursor stays at \<open>0\<close>. And what is pushed for a line with
  white space around it is the trimmed text, not the line.
\<close>

theorem history_cursor_bounds_counterexample:
  "\<forall>U. input_value (terminal_events U
            [Edit ''ls'', Keydown Enter, Keydown ArrowUp, Edit '' ''] terminal_fresh) = '' '' \<and>
        commandHistory (terminal_events U
            [Edit ''ls'', Keydown Enter, Keydown ArrowUp, Edit '' ''] terminal_fresh) = [''ls''] \<and>
        historyIndex (terminal_events U
            [Edit ''ls'', Keydown Enter, Keydown ArrowUp, Edit '' ''] terminal_fresh) = 0 \<and>
        commandHistory (terminal_events U
            [Edit ''ls'', Keydown Enter, Keydown ArrowUp, Edit '' '', Keydown Enter] terminal_fresh) =
          [''ls''] \<and>
        historyIndex (terminal_events U
            [Edit ''ls'', Keydown Enter, Keydown ArrowUp, Edit '' '', Keydown Enter] terminal_fresh) =
          0 \<and>
        commandHistory (terminal_events U [Edit '' pwd '', Keydown Enter] terminal_fresh) =
          [''pwd'']"
proof
  fix U :: "string \<Rightarrow> string"
  have tr: "trim ''ls'' = ''ls''" "trim '' '' = []" "trim '' pwd '' = ''pwd''"
    by (simp_all add: trim_def trimStart_def trimEnd_def js_whitespace_def)
  have f: "commandHistory terminal_fresh = []" "historyIndex terminal_fresh = -1"
    by (simp_all add: terminal_fresh_def Terminal_init_def)
  let ?t1 = "handleKeydown U Enter (terminal_fresh\<lparr>input_value := ''ls''\<rparr>)"
  have "trim (input_value (terminal_fresh\<lparr>input_value := ''ls''\<rparr>)) = ''ls''"
    by (simp add: tr)
  from handleKeydown_Enter_push [OF this, of U]
  have h1: "commandHistory ?t1 = [''ls'']" "historyIndex ?t1 = -1"
    by (simp_all add: f del: handleKeydown.simps(1))
  let ?t2 = "(handleKeydown U ArrowUp ?t1)\<lparr>input_value := '' ''\<rparr>"
  have h2: "commandHistory ?t2 = [''ls'']" "historyIndex ?t2 = 0" "input_value ?t2 = '' ''"
    by (simp_all add: h1 del: handleKeydown.simps(1))
  have "trim (input_value ?t2) = []"
    by (simp only: h2 tr)
  then have h3: "handleKeydown U Enter ?t2 = ?t2"
    by (rule handleKeydown_Enter_blank)
  let ?t4 = "handleKeydown U Enter (terminal_fresh\<lparr>input_value := '' pwd ''\<rparr>)"
  have "trim (input_value (terminal_fresh\<lparr>input_value := '' pwd ''\<rparr>)) = ''pwd''"
    by (simp add: tr)
  from handleKeydown_Enter_push [OF this, of U]
  have h4: "commandHistory ?t4 = [''pwd'']"
    by (simp add: f del: handleKeydown.simps(1))
  have e1: "terminal_events U [Edit ''ls'', Keydown Enter, Keydown ArrowUp, Edit '' '']
      terminal_fresh = ?t2"
    by (simp add: terminal_events_def del: handleKeydown.simps)
  have e2: "terminal_events U [Edit ''ls'', Keydown Enter, Keydown ArrowUp, Edit '' '',
      Keydown Enter] terminal_fresh = handleKeydown U Enter ?t2"
    by (simp add: terminal_events_def del: handleKeydown.simps)
  have e3: "terminal_events U [Edit '' pwd '', Keydown Enter] terminal_fresh = ?t4"
    by (simp add: terminal_events_def del: handleKeydown.simps)
  show "input_value (terminal_events U
            [Edit ''ls'', Keydown Enter, Keydown ArrowUp, Edit '' ''] terminal_fresh) = '' '' \<and>
        commandHistory (terminal_events U
            [Edit ''ls'', Keydown Enter, Keydown ArrowUp, Edit '' ''] terminal_fresh) = [''ls''] \<and>
        historyIndex (terminal_events U
            [Edit ''ls'', Keydown Enter, Keydown ArrowUp, Edit '' ''] terminal_fresh) = 0 \<and>
        commandHistory (terminal_events U
            [Edit ''ls'', Keydown Enter, Keydown ArrowUp, Edit '' '', Keydown Enter] terminal_fresh) =
          [''ls''] \<and>
        historyIndex (terminal_events U
            [Edit ''ls'', Keydown Enter, Keydown ArrowUp, Edit '' '', Keydown Enter] terminal_fresh) =
          0 \<and>
        commandHistory (terminal_events U [Edit '' pwd '', Keydown Enter] terminal_fresh) =
          [''pwd'']"
    unfolding e2 h3 unfolding e1 e3 using h2 h4 by simp
qed

subsection \<open>Strings\<close>

lemma toLowerCase_ascii_text: "ascii s \<Longrightarrow> toLowerCase U s = map toLowerCase_ascii s"
  by (simp add: toLowerCase_def)

lemma split_nonempty [simp]: "split sep s \<noteq> []"
  by (induction s) (auto split: list.splits)

lemma join_split: "join [sep] (split sep s) = s"
proof (induction s)
  case Nil
  then show ?case by simp
next
  case (Cons c s)
  obtain w ws where sp: "split sep s = w # ws"
    by (cases "split sep s") simp_all
  show ?case using Cons.IH
    by (cases ws) (simp_all add: sp)
qed

lemma split_no_sep: "sep \<notin> set w \<Longrightarrow> split sep w = [w]"
  by (induction w) auto

lemma split_first: "sep \<notin> set w \<Longrightarrow> split sep (w @ sep # rest) = w # split sep rest"
  by (induction w) auto

subsection \<open>Command dispatch\<close>

lemma executeCommand_dispatch:
  assumes "trim (input_value t) = line" "line \<noteq> []" "split CHR '' '' line = command # args"
  shows "executeCommand U t =
     (case commands_get (toLowerCase U command) of
        Own cmd \<Rightarrow>
          (case call_command cmd args (addToHistory line [] t) of
             (None, t2) \<Rightarrow> t2\<lparr>input_value := []\<rparr>
           | (Some e, t2) \<Rightarrow> addToHistory ''Failed to execute command'' ''error'' t2)
      | ObjectConstructor \<Rightarrow> (addToHistory line [] t)\<lparr>input_value := []\<rparr>
      | ObjectMethod name \<Rightarrow>
          if name = ''toString'' then (addToHistory line [] t)\<lparr>input_value := []\<rparr>
          else addToHistory ''Failed to execute command'' ''error'' (addToHistory line [] t)
      | ObjectPrototype \<Rightarrow> addToHistory ''Failed to execute command'' ''error'' (addToHistory line [] t)
      | Undefined \<Rightarrow>
          (addToHistory help_hint []
             (addToHistory (''Command not found: '' @ command) ''error'' (addToHistory line [] t)))
          \<lparr>input_value := []\<rparr>)"
  using assms by (simp add: executeCommand_def Let_def)

lemma commands_get_own: "map_of commands key = Some cmd \<Longrightarrow> commands_get key = Own cmd"
  by (simp add: commands_get_def)

lemma commands_get_undefined:
  assumes "key \<notin> set (map fst commands)" "key \<notin> set Object_prototype_names"
  shows "commands_get key = Undefined"
proof -
  have "map_of commands key = None"
    using assms(1) by (simp add: map_of_eq_None_iff)
  moreover have "key \<noteq> ''constructor''" "key \<noteq> ''__proto__''"
    using assms(2) by (auto simp: Object_prototype_names_def)
  ultimately show ?thesis using assms(2) by (simp add: commands_get_def)
qed

lemma map_of_commands_echo: "map_of commands ''echo'' = Some Echo"
  by (simp add: commands_def)

text \<open>
  C8, as amended. On submit the trimmed line, when it is not empty, is first appended to the
  transcript, then split at every single space; the first piece is the command and the other
  pieces are the arguments. If the lowercased command is a name of the registry, its handler
  runs with exactly these arguments on the transcript so extended and the input is cleared;
  for \<open>echo\<close> the one line appended after the echoed input is the arguments joined by single
  spaces (nothing when there are none). If the lowercased command is neither a name of the
  registry nor a property name of \<open>Object.prototype\<close>, the echoed input, the error line
  \<open>Command not found: \<close> followed by the command as typed, and the hint line are appended, the
  input is cleared and nothing else changes: no handler runs.
\<close>

theorem command_dispatch:
  assumes line: "trim (input_value t) = line" "line \<noteq> []"
    and toks: "split CHR '' '' line = command # args"
  shows "(map_of commands (toLowerCase U command) = Some cmd \<and>
          call_command cmd args (addToHistory line [] t) = (None, t2) \<longrightarrow>
            executeCommand U t = t2\<lparr>input_value := []\<rparr>) \<and>
         (toLowerCase U command = ''echo'' \<longrightarrow>
            executeCommand U t =
              t\<lparr>history_lines := history_lines t @
                     (line, []) # (if args = [] then [] else [(join '' '' args, [])]),
                input_value := []\<rparr>) \<and>
         (toLowerCase U command \<notin> set (map fst commands) \<and>
          toLowerCase U command \<notin> set Object_prototype_names \<longrightarrow>
            executeCommand U t =
              t\<lparr>history_lines := history_lines t @
                     [(line, []), (''Command not found: '' @ command, ''error''), (help_hint, [])],
                input_value := []\<rparr>)"
proof -
  note d = executeCommand_dispatch [OF line toks, of U]
  have own: "executeCommand U t = t2\<lparr>input_value := []\<rparr>"
    if "map_of commands (toLowerCase U command) = Some cmd"
      and "call_command cmd args (addToHistory line [] t) = (None, t2)"
    using that by (simp add: d commands_get_own)
  have ech: "executeCommand U t =
              t\<lparr>history_lines := history_lines t @
                     (line, []) # (if args = [] then [] else [(join '' '' args, [])]),
                input_value := []\<rparr>"
    if "toLowerCase U command = ''echo''"
    using that by (simp add: d commands_get_own map_of_commands_echo echo_def addToHistory_def)
  have unk: "executeCommand U t =
              t\<lparr>history_lines := history_lines t @
                     [(line, []), (''Command not found: '' @ command, ''error''), (help_hint, [])],
                input_value := []\<rparr>"
    if "toLowerCase U command \<notin> set (map fst commands)"
      "toLowerCase U command \<notin> set Object_prototype_names"
    using commands_get_undefined [OF that] by (simp add: d addToHistory_def)
  show ?thesis using own ech unk by blast
qed

lemma trim_echo_hello: "trim ''echo hello world'' = ''echo hello world''"
  by (simp add: trim_def trimStart_def trimEnd_def js_whitespace_def)

lemma split_echo_hello: "split CHR '' '' ''echo hello world'' = [''echo'', ''hello'', ''world'']"
  by simp

lemma trim_nonexistent: "trim ''nonexistent'' = ''nonexistent''"
  by (simp add: trim_def trimStart_def trimEnd_def js_whitespace_def)

lemma lower_echo: "toLowerCase U ''echo'' = ''echo''"
  by (simp add: toLowerCase_def ascii_def toLowerCase_ascii_def)

lemma lower_nonexistent: "toLowerCase U ''nonexistent'' = ''nonexistent''"
  by (simp add: toLowerCase_def ascii_def toLowerCase_ascii_def)

lemma nonexistent_unknown:
  "''nonexistent'' \<notin> set (map fst commands)" "''nonexistent'' \<notin> set Object_prototype_names"
  by (simp_all add: commands_def Object_prototype_names_def)

theorem command_dispatch_witness:
  "\<forall>U. history_lines (executeCommand U (terminal_fresh\<lparr>input_value := ''echo hello world''\<rparr>)) =
     [(''echo hello world'', []), (''hello world'', [])] \<and>
   history_lines (executeCommand U (terminal_fresh\<lparr>input_value := ''nonexistent''\<rparr>)) =
     [(''nonexistent'', []), (''Command not found: nonexistent'', ''error''), (help_hint, [])] \<and>
   history_lines (executeCommand U (terminal_fresh\<lparr>input_value := ''pwd''\<rparr>)) =
     [(''pwd'', []), (''/home/riley/web-app/'', [])]"
proof
  fix U :: "string \<Rightarrow> string"
  let ?t = "terminal_fresh\<lparr>input_value := ''echo hello world''\<rparr>"
  let ?u = "terminal_fresh\<lparr>input_value := ''nonexistent''\<rparr>"
  let ?v = "terminal_fresh\<lparr>input_value := ''pwd''\<rparr>"
  have h0: "history_lines terminal_fresh = []" "location_pathname terminal_fresh = ''/''"
    by (simp_all add: terminal_fresh_def Terminal_init_def class_loaded_def)
  have a: "executeCommand U ?t =
              ?t\<lparr>history_lines := history_lines ?t @
                     (''echo hello world'', []) # (if [''hello'', ''world''] = [] then []
                        else [(join '' '' [''hello'', ''world''], [])]),
                input_value := []\<rparr>"
    using command_dispatch [where t = ?t and line = "''echo hello world''" and command = "''echo''"
        and args = "[''hello'', ''world'']" and U = U]
    by (simp add: trim_echo_hello lower_echo)
  have b: "executeCommand U ?u =
              ?u\<lparr>history_lines := history_lines ?u @
                     [(''nonexistent'', []), (''Command not found: '' @ ''nonexistent'', ''error''),
                      (help_hint, [])],
                input_value := []\<rparr>"
    using command_dispatch [where t = ?u and line = "''nonexistent''" and command = "''nonexistent''"
        and args = "[]" and U = U] nonexistent_unknown
    by (simp add: trim_nonexistent lower_nonexistent)
  have trp: "trim (input_value ?v) = ''pwd''"
    by (simp add: trim_def trimStart_def trimEnd_def js_whitespace_def)
  have lop: "map_of commands (toLowerCase U ''pwd'') = Some Pwd"
    by (simp add: toLowerCase_def ascii_def toLowerCase_ascii_def commands_def)
  have cp: "call_command Pwd [] (addToHistory ''pwd'' [] ?v) =
      (None, showCurrentPath (addToHistory ''pwd'' [] ?v))"
    by simp
  have c: "executeCommand U ?v = (showCurrentPath (addToHistory ''pwd'' [] ?v))\<lparr>input_value := []\<rparr>"
    using command_dispatch [where t = ?v and line = "''pwd''" and command = "''pwd''"
        and args = "[]" and U = U and cmd = Pwd
        and ?t2.0 = "showCurrentPath (addToHistory ''pwd'' [] ?v)"] trp lop cp
    by simp
  show "history_lines (executeCommand U ?t) =
     [(''echo hello world'', []), (''hello world'', [])] \<and>
   history_lines (executeCommand U ?u) =
     [(''nonexistent'', []), (''Command not found: nonexistent'', ''error''), (help_hint, [])] \<and>
   history_lines (executeCommand U ?v) = [(''pwd'', []), (''/home/riley/web-app/'', [])]"
    unfolding a b c by (simp add: h0 showCurrentPath_def addToHistory_def)
qed

text \<open>
  C8 as stated fails on a line with two spaces in a row. The whitespace-separated tokens of
  \<open>echo  hi\<close> are \<open>echo\<close> and \<open>hi\<close>, and the echo handler run with the remaining token would
  append \<open>hi\<close>; the code splits at each space, passes the arguments \<open>''\<close> and \<open>hi\<close>, and
  appends \<open> hi\<close> with a leading space.
\<close>

theorem command_dispatch_counterexample:
  "\<forall>U. whitespace_tokens ''echo  hi'' = [''echo'', ''hi''] \<and>
   map_of commands (hd (whitespace_tokens ''echo  hi'')) = Some Echo \<and>
   history_lines (snd (call_command Echo (tl (whitespace_tokens ''echo  hi''))
       (addToHistory ''echo  hi'' [] (terminal_fresh\<lparr>input_value := ''echo  hi''\<rparr>)))) =
     [(''echo  hi'', []), (''hi'', [])] \<and>
   history_lines (executeCommand U (terminal_fresh\<lparr>input_value := ''echo  hi''\<rparr>)) =
     [(''echo  hi'', []), ('' hi'', [])] \<and>
   history_lines (executeCommand U (terminal_fresh\<lparr>input_value := ''echo  hi''\<rparr>)) \<noteq>
   history_lines (snd (call_command Echo (tl (whitespace_tokens ''echo  hi''))
       (addToHistory ''echo  hi'' [] (terminal_fresh\<lparr>input_value := ''echo  hi''\<rparr>))))"
proof
  fix U :: "string \<Rightarrow> string"
  let ?t = "terminal_fresh\<lparr>input_value := ''echo  hi''\<rparr>"
  have h0: "history_lines terminal_fresh = []"
    by (simp add: terminal_fresh_def Terminal_init_def)
  have w: "whitespace_tokens ''echo  hi'' = [''echo'', ''hi'']"
    by (simp add: whitespace_tokens_def js_whitespace_def)
  have m: "map_of commands ''echo'' = Some Echo" by (simp add: commands_def)
  have tr: "trim (input_value ?t) = ''echo  hi''"
    by (simp add: trim_def trimStart_def trimEnd_def js_whitespace_def)
  have sp: "split CHR '' '' ''echo  hi'' = [''echo'', [], ''hi'']" by simp
  have ex: "executeCommand U ?t =
      ?t\<lparr>history_lines := [(''echo  hi'', []), ('' hi'', [])], input_value := []\<rparr>"
    by (simp add: executeCommand_dispatch [OF tr _ sp] lower_echo commands_get_own [OF m] echo_def
        addToHistory_def h0)
  show "whitespace_tokens ''echo  hi'' = [''echo'', ''hi''] \<and>
   map_of commands (hd (whitespace_tokens ''echo  hi'')) = Some Echo \<and>
   history_lines (snd (call_command Echo (tl (whitespace_tokens ''echo  hi''))
       (addToHistory ''echo  hi'' [] ?t))) =
     [(''echo  hi'', []), (''hi'', [])] \<and>
   history_lines (executeCommand U ?t) = [(''echo  hi'', []), ('' hi'', [])] \<and>
   history_lines (executeCommand U ?t) \<noteq>
   history_lines (snd (call_command Echo (tl (whitespace_tokens ''echo  hi''))
       (addToHistory ''echo  hi'' [] ?t)))"
    unfolding w ex by (simp add: m echo_def addToHistory_def h0)
qed

text \<open>
  The lookup \<open>this.commands[key]\<close> also finds inherited properties. \<open>constructor\<close> is not a
  command, yet no error line is appended: the function \<open>Object\<close> is called. \<open>__proto__\<close> finds
  an object that cannot be called; the \<open>TypeError\<close> is caught and reported as a failed command.
\<close>

lemma executeCommand_inherited_property:
  "history_lines (executeCommand U (terminal_fresh\<lparr>input_value := ''constructor''\<rparr>)) =
     [(''constructor'', [])] \<and>
   history_lines (executeCommand U (terminal_fresh\<lparr>input_value := ''__proto__''\<rparr>)) =
     [(''__proto__'', []), (''Failed to execute command'', ''error'')]"
proof -
  have tr: "trim ''constructor'' = ''constructor''" "trim ''__proto__'' = ''__proto__''"
    by (simp_all add: trim_def trimStart_def trimEnd_def js_whitespace_def)
  have lo: "toLowerCase U ''constructor'' = ''constructor''"
    "toLowerCase U ''__proto__'' = ''__proto__''"
    by (simp_all add: toLowerCase_def ascii_def toLowerCase_ascii_def)
  show ?thesis
    by (simp add: executeCommand_def Let_def tr lo commands_get_def commands_def addToHistory_def
        terminal_fresh_def Terminal_init_def)
qed

subsection \<open>Case of command names\<close>

lemma commands_lowercase: "list_all (\<lambda>name. toLowerCase U name = name) (map fst commands)"
  by (simp add: commands_def toLowerCase_def ascii_def toLowerCase_ascii_def)

lemma echo_rest:
  assumes "toLowerCase U c = ''echo''" "CHR '' '' \<notin> set c" "trim (input_value t) = c @ '' '' @ rest"
  shows "executeCommand U t =
      t\<lparr>history_lines := history_lines t @ [(c @ '' '' @ rest, []), (rest, [])],
        input_value := []\<rparr>"
proof -
  have sp: "split CHR '' '' (c @ '' '' @ rest) = c # split CHR '' '' rest"
    using split_first [OF assms(2), of rest] by simp
  have ne: "c @ '' '' @ rest \<noteq> []" by simp
  have j: "join '' '' (split CHR '' '' rest) = rest"
    using join_split [of "CHR '' ''" rest] by simp
  have "split CHR '' '' rest \<noteq> []" by simp
  then show ?thesis
    using executeCommand_dispatch [OF assms(3) ne sp, of U]
    by (simp add: assms(1) commands_get_own [OF map_of_commands_echo] echo_def addToHistory_def j)
qed

lemma handleTabCompletion_cases:
  assumes "filter (\<lambda>name. startsWith name
             (toLowerCase U (hd (split CHR '' '' (trim (input_value t)))))) (map fst commands) = ms"
  shows "(length ms = 1 \<longrightarrow> handleTabCompletion U t = t\<lparr>input_value := hd ms\<rparr>) \<and>
         (length ms > 1 \<longrightarrow>
            handleTabCompletion U t =
              t\<lparr>history_lines := history_lines t @
                   (''Possible commands:'', []) # map (\<lambda>m. (''  '' @ m, [])) ms\<rparr>) \<and>
         (ms = [] \<longrightarrow> handleTabCompletion U t = t)"
proof -
  have tm: "tab_matches U (input_value t) = ms"
    using assms by (simp add: tab_matches_def Let_def)
  have fold_lines: "fold (\<lambda>m. addToHistory (f m) ty) xs u =
      u\<lparr>history_lines := history_lines u @ map (\<lambda>m. (f m, ty)) xs\<rparr>" for f ty xs and u :: terminal
    by (induction xs arbitrary: u) (simp_all add: addToHistory_def)
  show ?thesis
    unfolding handleTabCompletion_def tm Let_def fold_lines
    by (simp add: addToHistory_def)
qed

lemma handleTabCompletion_offers:
  assumes name: "name \<in> set (map fst commands)"
    and pre: "startsWith name (toLowerCase U (hd (split CHR '' '' (trim (input_value t)))))"
  shows "input_value (handleTabCompletion U t) = name \<or>
         (''  '' @ name, []) \<in> set (history_lines (handleTabCompletion U t))"
proof -
  let ?ms = "filter (\<lambda>name. startsWith name
             (toLowerCase U (hd (split CHR '' '' (trim (input_value t)))))) (map fst commands)"
  have mem: "name \<in> set ?ms" using name pre by simp
  note c = handleTabCompletion_cases [of U t ?ms, OF refl]
  show ?thesis
  proof (cases "length ?ms = 1")
    case True
    then obtain m where m: "?ms = [m]" by (cases ?ms) auto
    with mem have "m = name" by simp
    with c True m show ?thesis by simp
  next
    case False
    with mem have "length ?ms > 1" by (cases ?ms) auto
    with c have "handleTabCompletion U t =
              t\<lparr>history_lines := history_lines t @
                   (''Possible commands:'', []) # map (\<lambda>m. (''  '' @ m, [])) ?ms\<rparr>"
      by blast
    then have "history_lines (handleTabCompletion U t) =
        history_lines t @ (''Possible commands:'', []) # map (\<lambda>m. (''  '' @ m, [])) ?ms"
      by simp
    moreover from mem have "(\<lambda>m. (''  '' @ m, [])) name \<in> (\<lambda>m. (''  '' @ m, [])) ` set ?ms"
      by (rule imageI)
    ultimately show ?thesis by auto
  qed
qed

text \<open>
  C10. Every name of the registry is lowercase. On submit the first piece of the trimmed line
  is lowercased before the lookup: whenever the lowercased command is a name of the registry,
  its handler runs, and it receives the remaining pieces as they were typed. So a line that
  is \<open>echo\<close> in any mix of cases, a space and a rest appends the rest unchanged. Tab completion
  compares the names of the registry with the lowercased first piece of the trimmed input:
  when exactly one name starts with it, the input becomes that name; when several do, the
  line \<open>Possible commands:\<close> and one indented line for each are appended; when none does,
  nothing changes. So every name that the typed piece is a prefix of, whatever its case, is
  what the input becomes or is among the lines appended.
\<close>

theorem command_names_case_insensitive:
  "list_all (\<lambda>name. toLowerCase U name = name) (map fst commands) \<and>
   (trim (input_value t) = line \<and> line \<noteq> [] \<and> split CHR '' '' line = command # args \<and>
    map_of commands (toLowerCase U command) = Some cmd \<longrightarrow>
      executeCommand U t =
        (case call_command cmd args (addToHistory line [] t) of
           (None, t2) \<Rightarrow> t2\<lparr>input_value := []\<rparr>
         | (Some e, t2) \<Rightarrow> addToHistory ''Failed to execute command'' ''error'' t2)) \<and>
   (toLowerCase U c = ''echo'' \<and> CHR '' '' \<notin> set c \<and> trim (input_value t) = c @ '' '' @ rest \<longrightarrow>
      history_lines (executeCommand U t) =
        history_lines t @ [(c @ '' '' @ rest, []), (rest, [])]) \<and>
   (filter (\<lambda>name. startsWith name
        (toLowerCase U (hd (split CHR '' '' (trim (input_value t)))))) (map fst commands) = ms \<longrightarrow>
      (length ms = 1 \<longrightarrow> handleTabCompletion U t = t\<lparr>input_value := hd ms\<rparr>) \<and>
      (length ms > 1 \<longrightarrow>
         handleTabCompletion U t =
           t\<lparr>history_lines := history_lines t @
                (''Possible commands:'', []) # map (\<lambda>m. (''  '' @ m, [])) ms\<rparr>) \<and>
      (ms = [] \<longrightarrow> handleTabCompletion U t = t)) \<and>
   (name \<in> set (map fst commands) \<and>
    startsWith name (toLowerCase U (hd (split CHR '' '' (trim (input_value t))))) \<longrightarrow>
      input_value (handleTabCompletion U t) = name \<or>
      (''  '' @ name, []) \<in> set (history_lines (handleTabCompletion U t)))"
proof -
  have disp: "executeCommand U t =
        (case call_command cmd args (addToHistory line [] t) of
           (None, t2) \<Rightarrow> t2\<lparr>input_value := []\<rparr>
         | (Some e, t2) \<Rightarrow> addToHistory ''Failed to execute command'' ''error'' t2)"
    if "trim (input_value t) = line" "line \<noteq> []" "split CHR '' '' line = command # args"
      "map_of commands (toLowerCase U command) = Some cmd"
    using executeCommand_dispatch [OF that(1,2,3), of U] commands_get_own [OF that(4)] by simp
  have ech: "history_lines (executeCommand U t) =
        history_lines t @ [(c @ '' '' @ rest, []), (rest, [])]"
    if "toLowerCase U c = ''echo''" "CHR '' '' \<notin> set c" "trim (input_value t) = c @ '' '' @ rest"
    using echo_rest [OF that] by simp
  show ?thesis
    using commands_lowercase [of U] disp ech handleTabCompletion_cases [of U t ms]
      handleTabCompletion_offers [of name U t]
    by blast
qed

theorem command_names_case_insensitive_witness:
  "\<forall>U. history_lines (executeCommand U (terminal_fresh\<lparr>input_value := ''ECHO Hi There''\<rparr>)) =
     [(''ECHO Hi There'', []), (''Hi There'', [])] \<and>
   executeCommand U (terminal_fresh\<lparr>input_value := ''PwD''\<rparr>) =
     terminal_fresh\<lparr>history_lines := [(''PwD'', []), (''/home/riley/web-app/'', [])]\<rparr> \<and>
   handleTabCompletion U (terminal_fresh\<lparr>input_value := ''HE''\<rparr>) =
     terminal_fresh\<lparr>input_value := ''help''\<rparr> \<and>
   handleTabCompletion U (terminal_fresh\<lparr>input_value := ''C''\<rparr>) =
     terminal_fresh\<lparr>input_value := ''C'',
       history_lines := [(''Possible commands:'', []), (''  clear'', []), (''  contact'', []),
         (''  cat'', []), (''  cd'', [])]\<rparr> \<and>
   handleTabCompletion U (terminal_fresh\<lparr>input_value := ''Xyz''\<rparr>) =
     terminal_fresh\<lparr>input_value := ''Xyz''\<rparr> \<and>
   (input_value (handleTabCompletion U (terminal_fresh\<lparr>input_value := ''SK''\<rparr>)) = ''skills'' \<or>
    (''  skills'', []) \<in>
      set (history_lines (handleTabCompletion U (terminal_fresh\<lparr>input_value := ''SK''\<rparr>))))"
proof
  fix U :: "string \<Rightarrow> string"
  let ?t = "terminal_fresh\<lparr>input_value := ''ECHO Hi There''\<rparr>"
  let ?p = "terminal_fresh\<lparr>input_value := ''PwD''\<rparr>"
  let ?h = "terminal_fresh\<lparr>input_value := ''HE''\<rparr>"
  let ?c = "terminal_fresh\<lparr>input_value := ''C''\<rparr>"
  let ?x = "terminal_fresh\<lparr>input_value := ''Xyz''\<rparr>"
  let ?s = "terminal_fresh\<lparr>input_value := ''SK''\<rparr>"
  have h0: "history_lines terminal_fresh = []" "input_value terminal_fresh = []"
    "location_pathname terminal_fresh = ''/''"
    by (simp_all add: terminal_fresh_def Terminal_init_def class_loaded_def)
  have lo: "toLowerCase U ''ECHO'' = ''echo''" "toLowerCase U ''PwD'' = ''pwd''"
    "toLowerCase U ''HE'' = ''he''" "toLowerCase U ''C'' = ''c''" "toLowerCase U ''Xyz'' = ''xyz''"
    "toLowerCase U ''SK'' = ''sk''"
    by (simp_all add: toLowerCase_def ascii_def toLowerCase_ascii_def)
  have tr: "trim ''ECHO Hi There'' = ''ECHO'' @ '' '' @ ''Hi There''" "trim ''PwD'' = ''PwD''"
    "trim ''HE'' = ''HE''" "trim ''C'' = ''C''" "trim ''Xyz'' = ''Xyz''" "trim ''SK'' = ''SK''"
    by (simp_all add: trim_def trimStart_def trimEnd_def js_whitespace_def)
  have sp: "CHR '' '' \<notin> set ''ECHO''" by simp
  have "history_lines (executeCommand U ?t) =
        history_lines ?t @ [(''ECHO'' @ '' '' @ ''Hi There'', []), (''Hi There'', [])]"
    using command_names_case_insensitive [where t = ?t and c = "''ECHO''" and rest = "''Hi There''"
        and U = U] lo(1) sp tr(1)
    by simp
  then have a: "history_lines (executeCommand U ?t) =
      [(''ECHO Hi There'', []), (''Hi There'', [])]"
    by (simp add: h0)
  have mp: "map_of commands ''pwd'' = Some Pwd" by (simp add: commands_def)
  have "executeCommand U ?p =
        (case call_command Pwd [] (addToHistory ''PwD'' [] ?p) of
           (None, t2) \<Rightarrow> t2\<lparr>input_value := []\<rparr>
         | (Some e, t2) \<Rightarrow> addToHistory ''Failed to execute command'' ''error'' t2)"
    using command_names_case_insensitive [where t = ?p and line = "''PwD''" and command = "''PwD''"
        and args = "[]" and cmd = Pwd and U = U] lo(2) tr(2) mp
    by simp
  then have b: "executeCommand U ?p =
      terminal_fresh\<lparr>history_lines := [(''PwD'', []), (''/home/riley/web-app/'', [])]\<rparr>"
    by (simp add: showCurrentPath_def addToHistory_def h0)
  have m1: "filter (\<lambda>name. startsWith name ''he'') (map fst commands) = [''help'']"
    and m2: "filter (\<lambda>name. startsWith name ''c'') (map fst commands) =
      [''clear'', ''contact'', ''cat'', ''cd'']"
    and m3: "filter (\<lambda>name. startsWith name ''xyz'') (map fst commands) = []"
    by (simp_all add: commands_def startsWith_def)
  have c: "handleTabCompletion U ?h = terminal_fresh\<lparr>input_value := ''help''\<rparr>"
    using command_names_case_insensitive [where t = ?h and ms = "[''help'']" and U = U]
    by (simp add: tr lo m1)
  have d: "handleTabCompletion U ?c =
     terminal_fresh\<lparr>input_value := ''C'',
       history_lines := [(''Possible commands:'', []), (''  clear'', []), (''  contact'', []),
         (''  cat'', []), (''  cd'', [])]\<rparr>"
    using command_names_case_insensitive [where t = ?c
        and ms = "[''clear'', ''contact'', ''cat'', ''cd'']" and U = U]
    by (simp add: tr lo m2 h0)
  have e: "handleTabCompletion U ?x = ?x"
    using command_names_case_insensitive [where t = ?x and ms = "[]" and U = U]
    by (simp add: tr lo m3)
  have sk: "''skills'' \<in> set (map fst commands)" "startsWith ''skills'' ''sk''"
    by (simp_all add: commands_def startsWith_def)
  have f: "input_value (handleTabCompletion U ?s) = ''skills'' \<or>
    (''  skills'', []) \<in> set (history_lines (handleTabCompletion U ?s))"
    using command_names_case_insensitive [where t = ?s and name = "''skills''" and U = U] sk
    by (simp add: tr lo)
  show "history_lines (executeCommand U ?t) = [(''ECHO Hi There'', []), (''Hi There'', [])] \<and>
   executeCommand U ?p =
     terminal_fresh\<lparr>history_lines := [(''PwD'', []), (''/home/riley/web-app/'', [])]\<rparr> \<and>
   handleTabCompletion U ?h = terminal_fresh\<lparr>input_value := ''help''\<rparr> \<and>
   handleTabCompletion U ?c =
     terminal_fresh\<lparr>input_value := ''C'',
       history_lines := [(''Possible commands:'', []), (''  clear'', []), (''  contact'', []),
         (''  cat'', []), (''  cd'', [])]\<rparr> \<and>
   handleTabCompletion U ?x = ?x \<and>
   (input_value (handleTabCompletion U ?s) = ''skills'' \<or>
    (''  skills'', []) \<in> set (history_lines (handleTabCompletion U ?s)))"
    using a b c d e f by blast
qed

section \<open>Verification of the frame scheduler\<close>

lemma map_of_Object_assign:
  "map_of (Object_assign target source) = map_of target ++ map_of (rev source)"
proof (induction source arbitrary: target)
  case Nil
  then show ?case by (simp add: Object_assign_def)
next
  case (Cons kv source)
  obtain k v where kv: "kv = (k, v)" by (cases kv)
  have "Object_assign target (kv # source) = Object_assign (AList.update k v target) source"
    by (simp add: Object_assign_def kv)
  then have "map_of (Object_assign target (kv # source)) =
      map_of (AList.update k v target) ++ map_of (rev source)"
    using Cons.IH by simp
  also have "\<dots> = map_of target ++ map_of (rev (kv # source))"
    by (simp add: update_conv' kv map_add_upd_left fun_eq_iff map_add_def split: option.splits)
  finally show ?case .
qed

lemma distinct_Object_assign:
  "distinct (map fst target) \<Longrightarrow> distinct (map fst (Object_assign target source))"
proof (induction source arbitrary: target)
  case Nil
  then show ?case by (simp add: Object_assign_def)
next
  case (Cons kv source)
  obtain k v where kv: "kv = (k, v)" by (cases kv)
  have "Object_assign target (kv # source) = Object_assign (AList.update k v target) source"
    by (simp add: Object_assign_def kv)
  moreover have "distinct (map fst (AList.update k v target))"
    using Cons.prems by (simp add: distinct_update)
  ultimately show ?case using Cons.IH by simp
qed

lemma map_of_rev_distinct: "distinct (map fst xs) \<Longrightarrow> map_of (rev xs) = map_of xs"
  by (rule map_of_inject_set [THEN iffD2]) (simp_all add: rev_map [symmetric])

text \<open>The value of \<open>{...a, ...b}\<close> when \<open>a\<close> is an object (its keys are distinct).\<close>

lemma map_of_spread:
  "(case a of None \<Rightarrow> True | Some x \<Rightarrow> distinct (map fst x)) \<Longrightarrow>
   map_of (spread a b) = (case a of None \<Rightarrow> Map.empty | Some x \<Rightarrow> map_of x) ++ map_of (rev b)"
  by (cases a) (simp_all add: spread_def map_of_Object_assign map_of_rev_distinct)

lemma distinct_spread: "distinct (map fst (spread a b))"
  unfolding spread_def by (intro distinct_Object_assign) simp

lemma merge_fragments_sem:
  assumes "case held of None \<Rightarrow> True | Some x \<Rightarrow> distinct (map fst x)"
  shows "(case merge_fragments held fs of None \<Rightarrow> True | Some m \<Rightarrow> distinct (map fst m)) \<and>
         (case merge_fragments held fs of None \<Rightarrow> Map.empty | Some m \<Rightarrow> map_of m) =
         (case held of None \<Rightarrow> Map.empty | Some x \<Rightarrow> map_of x) ++ map_of (rev (concat fs))"
  using assms
proof (induction fs arbitrary: held)
  case Nil
  then show ?case by (simp add: merge_fragments_def)
next
  case (Cons f fs)
  have step: "merge_fragments held (f # fs) = merge_fragments (Some (spread held f)) fs"
    by (simp add: merge_fragments_def)
  have d: "case Some (spread held f) of None \<Rightarrow> True | Some x \<Rightarrow> distinct (map fst x)"
    by (simp add: distinct_spread)
  have m: "map_of (spread held f) =
      (case held of None \<Rightarrow> Map.empty | Some x \<Rightarrow> map_of x) ++ map_of (rev f)"
    using Cons.prems by (rule map_of_spread)
  from Cons.IH [OF d] show ?case
    unfolding step by (simp add: m map_of_append)
qed

lemma merge_fragments_nonempty: "fs \<noteq> [] \<Longrightarrow> \<exists>m. merge_fragments held fs = Some m"
proof (induction fs arbitrary: held)
  case Nil
  then show ?case by simp
next
  case (Cons f fs)
  show ?case
  proof (cases fs)
    case Nil
    then show ?thesis by (simp add: merge_fragments_def)
  next
    case (Cons g gs)
    then have "fs \<noteq> []" by simp
    from Cons.IH [OF this, of "Some (spread held f)"] show ?thesis
      by (simp add: merge_fragments_def)
  qed
qed

lemma filter_key_distinct:
  "distinct (map fst ps) \<Longrightarrow> map_of ps e = Some st \<Longrightarrow> filter (\<lambda>w. fst w = e) ps = [(e, st)]"
proof (induction ps)
  case Nil
  then show ?case by simp
next
  case (Cons w ps)
  show ?case
  proof (cases "fst w = e")
    case True
    then have "e \<notin> fst ` set ps" using Cons.prems(1) by auto
    then have "filter (\<lambda>w. fst w = e) ps = []" by (auto simp: filter_empty_conv)
    moreover have "w = (e, st)" using True Cons.prems(2) by (cases w) simp
    ultimately show ?thesis by simp
  next
    case False
    then have "map_of ps e = Some st" using Cons.prems(2) by (cases w) (simp split: if_splits)
    with Cons.IH Cons.prems(1) False show ?thesis by simp
  qed
qed

subsection \<open>The module-level scheduler\<close>

lemma scheduleStyleUpdate_updates:
  "updates (scheduleStyleUpdate e' st s) =
     AList.update e' (spread (map_of (updates s) e') st) (updates s)"
  by (simp add: scheduleStyleUpdate_def Let_def)

lemma su_schedule_all_lookup:
  "map_of (updates (su_schedule_all calls s)) e =
     merge_fragments (map_of (updates s) e) (fragments_for e calls)"
proof (induction calls arbitrary: s)
  case Nil
  then show ?case by (simp add: su_schedule_all_def fragments_for_def merge_fragments_def)
next
  case (Cons c calls)
  let ?s1 = "scheduleStyleUpdate (fst c) (snd c) s"
  have step: "su_schedule_all (c # calls) s = su_schedule_all calls ?s1"
    by (simp add: su_schedule_all_def)
  have look: "map_of (updates ?s1) e =
      (if fst c = e then Some (spread (map_of (updates s) e) (snd c)) else map_of (updates s) e)"
    by (auto simp: scheduleStyleUpdate_updates update_conv')
  show ?case
    unfolding step Cons.IH look by (simp add: fragments_for_def merge_fragments_def)
qed

lemma su_schedule_all_distinct:
  "distinct (map fst (updates s)) \<Longrightarrow> distinct (map fst (updates (su_schedule_all calls s)))"
proof (induction calls arbitrary: s)
  case Nil
  then show ?case by (simp add: su_schedule_all_def)
next
  case (Cons c calls)
  have "distinct (map fst (updates (scheduleStyleUpdate (fst c) (snd c) s)))"
    using Cons.prems by (simp add: scheduleStyleUpdate_updates distinct_update)
  from Cons.IH [OF this] show ?case by (simp add: su_schedule_all_def)
qed

lemma su_schedule_all_rest:
  "su_writes (su_schedule_all calls s) = su_writes s \<and>
   su_style (su_schedule_all calls s) = su_style s \<and>
   (su_ticking s \<longrightarrow> su_ticking (su_schedule_all calls s) \<and>
      su_requested (su_schedule_all calls s) = su_requested s) \<and>
   (\<not> su_ticking s \<and> calls \<noteq> [] \<longrightarrow> su_ticking (su_schedule_all calls s) \<and>
      su_requested (su_schedule_all calls s) = su_requested s + 1)"
proof (induction calls arbitrary: s)
  case Nil
  then show ?case by (simp add: su_schedule_all_def)
next
  case (Cons c calls)
  let ?s1 = "scheduleStyleUpdate (fst c) (snd c) s"
  have step: "su_schedule_all (c # calls) s = su_schedule_all calls ?s1"
    by (simp add: su_schedule_all_def)
  have s1: "su_writes ?s1 = su_writes s" "su_style ?s1 = su_style s" "su_ticking ?s1"
    "su_requested ?s1 = (if su_ticking s then su_requested s else su_requested s + 1)"
    by (simp_all add: scheduleStyleUpdate_def Let_def)
  from Cons.IH [of ?s1] show ?case
    unfolding step by (simp add: s1)
qed

lemma fold_su_apply:
  "su_writes (fold su_apply ws s) = su_writes s @ ws \<and>
   updates (fold su_apply ws s) = updates s \<and>
   su_ticking (fold su_apply ws s) = su_ticking s \<and>
   su_requested (fold su_apply ws s) = su_requested s"
  by (induction ws arbitrary: s) (simp_all add: su_apply_def)

lemma fold_su_apply_style:
  "distinct (map fst ws) \<Longrightarrow>
   su_style (fold su_apply ws s) e =
     (case map_of ws e of None \<Rightarrow> su_style s e | Some st \<Rightarrow> Object_assign (su_style s e) st)"
proof (induction ws arbitrary: s)
  case Nil
  then show ?case by simp
next
  case (Cons w ws)
  obtain e' st' where w: "w = (e', st')" by (cases w)
  have d: "distinct (map fst ws)" and notin: "e' \<notin> fst ` set ws"
    using Cons.prems w by auto
  have none: "map_of ws e' = None" using notin by (simp add: map_of_eq_None_iff)
  show ?case
    using Cons.IH [OF d, of "su_apply w s"] none
    by (auto simp: w su_apply_def split: option.splits)
qed

lemma su_apply_requested:
  "su_apply w (s\<lparr>su_requested := n\<rparr>) = (su_apply w s)\<lparr>su_requested := n\<rparr>"
  by (simp add: su_apply_def)

lemma fold_su_apply_requested:
  "fold su_apply ws (s\<lparr>su_requested := n\<rparr>) = (fold su_apply ws s)\<lparr>su_requested := n\<rparr>"
  by (induction ws arbitrary: s) (simp_all add: su_apply_requested)

lemma su_frame_one:
  "su_requested s = 1 \<Longrightarrow>
   su_frame s = (fold su_apply (updates s) s)\<lparr>updates := [], su_ticking := False, su_requested := 0\<rparr>"
  by (simp add: su_frame_def runUpdates_def fold_su_apply_requested)

lemma frame_coalescing_module:
  assumes idle: "updates s = []" "\<not> su_ticking s" "su_requested s = 0"
    and called: "fragments_for e calls \<noteq> []"
  shows "su_requested (su_schedule_all calls s) = 1 \<and>
         (\<exists>m. merge_fragments None (fragments_for e calls) = Some m \<and>
              filter (\<lambda>w. fst w = e)
                (drop (length (su_writes s)) (su_writes (su_frame (su_schedule_all calls s)))) = [(e, m)] \<and>
              map_of m = map_of (rev (concat (fragments_for e calls))) \<and>
              su_style (su_frame (su_schedule_all calls s)) e = Object_assign (su_style s e) m) \<and>
         updates (su_frame (su_schedule_all calls s)) = [] \<and>
         \<not> su_ticking (su_frame (su_schedule_all calls s)) \<and>
         su_requested (su_frame (su_schedule_all calls s)) = 0"
proof -
  let ?s1 = "su_schedule_all calls s"
  have ne: "calls \<noteq> []" using called by (auto simp: fragments_for_def)
  have rest: "su_writes ?s1 = su_writes s" "su_style ?s1 = su_style s" "su_requested ?s1 = 1"
    using su_schedule_all_rest [of calls s] idle ne by simp_all
  obtain m where m: "merge_fragments None (fragments_for e calls) = Some m"
    using merge_fragments_nonempty [OF called] by blast
  have look: "map_of (updates ?s1) e = Some m"
    using su_schedule_all_lookup [of calls s e] idle m by simp
  have dist: "distinct (map fst (updates ?s1))"
    using su_schedule_all_distinct [of s calls] idle by simp
  have fr: "su_frame ?s1 =
      (fold su_apply (updates ?s1) ?s1)\<lparr>updates := [], su_ticking := False, su_requested := 0\<rparr>"
    using rest(3) by (rule su_frame_one)
  have writes: "su_writes (su_frame ?s1) = su_writes s @ updates ?s1"
    using fold_su_apply [of "updates ?s1" ?s1] by (simp add: fr rest)
  have one: "filter (\<lambda>w. fst w = e) (drop (length (su_writes s)) (su_writes (su_frame ?s1))) = [(e, m)]"
    using filter_key_distinct [OF dist look] by (simp add: writes)
  have sem: "map_of m = map_of (rev (concat (fragments_for e calls)))"
    using merge_fragments_sem [of None "fragments_for e calls"] m by simp
  have sty: "su_style (su_frame ?s1) e = Object_assign (su_style s e) m"
    using fold_su_apply_style [OF dist, of ?s1 e] look by (simp add: fr rest)
  show ?thesis
    using rest(3) m one sem sty by (simp add: fr)
qed

subsection \<open>The scroll coordinator's scheduler\<close>

lemma sh_scheduleStyleUpdate_pending:
  assumes "pendingStyles p = Some ps"
  shows "fst (sh_scheduleStyleUpdate e' st p) = None"
    and "pendingStyles (snd (sh_scheduleStyleUpdate e' st p)) =
           Some (AList.update e' (spread (map_of ps e') st) ps)"
    and "style_writes (snd (sh_scheduleStyleUpdate e' st p)) = style_writes p"
    and "element_style (snd (sh_scheduleStyleUpdate e' st p)) = element_style p"
    and "uncaught (snd (sh_scheduleStyleUpdate e' st p)) = uncaught p"
    and "styleUpdateScheduled (snd (sh_scheduleStyleUpdate e' st p))"
    and "frame_requests (snd (sh_scheduleStyleUpdate e' st p)) =
           (if styleUpdateScheduled p then frame_requests p
            else frame_requests p @ [(next_frame_handle p, ApplyStyles)])"
  using assms by (simp_all add: sh_scheduleStyleUpdate_def Let_def requestAnimationFrame_def)

lemma sh_schedule_all_Cons:
  "pendingStyles p = Some ps \<Longrightarrow>
   sh_schedule_all (c # calls) p =
     sh_schedule_all calls (snd (sh_scheduleStyleUpdate (fst c) (snd c) p))"
  using sh_scheduleStyleUpdate_pending(1) [of p ps "fst c" "snd c"]
  by (cases "sh_scheduleStyleUpdate (fst c) (snd c) p") (simp add: sh_schedule_all_def)

lemma sh_schedule_all_pending:
  assumes "pendingStyles p = Some ps"
  shows "fst (sh_schedule_all calls p) = None \<and>
         (\<exists>ps'. pendingStyles (snd (sh_schedule_all calls p)) = Some ps' \<and>
                map_of ps' e = merge_fragments (map_of ps e) (fragments_for e calls) \<and>
                (distinct (map fst ps) \<longrightarrow> distinct (map fst ps')))"
  using assms
proof (induction calls arbitrary: p ps)
  case Nil
  then show ?case by (simp add: sh_schedule_all_def fragments_for_def merge_fragments_def)
next
  case (Cons c calls)
  let ?p1 = "snd (sh_scheduleStyleUpdate (fst c) (snd c) p)"
  let ?ps1 = "AList.update (fst c) (spread (map_of ps (fst c)) (snd c)) ps"
  note step = sh_schedule_all_Cons [OF Cons.prems, of c calls]
  have p1: "pendingStyles ?p1 = Some ?ps1"
    using Cons.prems by (rule sh_scheduleStyleUpdate_pending(2))
  have look: "map_of ?ps1 e =
      (if fst c = e then Some (spread (map_of ps e) (snd c)) else map_of ps e)"
    by (auto simp: update_conv')
  have d: "distinct (map fst ps) \<longrightarrow> distinct (map fst ?ps1)"
    by (simp add: distinct_update)
  from Cons.IH [OF p1] obtain ps' where
    e: "fst (sh_schedule_all calls ?p1) = None" and
    ps': "pendingStyles (snd (sh_schedule_all calls ?p1)) = Some ps'" and
    m: "map_of ps' e = merge_fragments (map_of ?ps1 e) (fragments_for e calls)" and
    d': "distinct (map fst ?ps1) \<longrightarrow> distinct (map fst ps')"
    by blast
  have "map_of ps' e = merge_fragments (map_of ps e) (fragments_for e (c # calls))"
    unfolding m look by (simp add: fragments_for_def merge_fragments_def)
  then show ?case
    unfolding step using e ps' d d' by auto
qed

lemma sh_schedule_all_rest:
  assumes "pendingStyles p = Some ps"
  shows "style_writes (snd (sh_schedule_all calls p)) = style_writes p \<and>
         element_style (snd (sh_schedule_all calls p)) = element_style p \<and>
         uncaught (snd (sh_schedule_all calls p)) = uncaught p \<and>
         (\<not> styleUpdateScheduled p \<and> calls \<noteq> [] \<longrightarrow>
            styleUpdateScheduled (snd (sh_schedule_all calls p)) \<and>
            frame_requests (snd (sh_schedule_all calls p)) =
              frame_requests p @ [(next_frame_handle p, ApplyStyles)]) \<and>
         (styleUpdateScheduled p \<longrightarrow>
            styleUpdateScheduled (snd (sh_schedule_all calls p)) \<and>
            frame_requests (snd (sh_schedule_all calls p)) = frame_requests p)"
  using assms
proof (induction calls arbitrary: p ps)
  case Nil
  then show ?case by (simp add: sh_schedule_all_def)
next
  case (Cons c calls)
  let ?p1 = "snd (sh_scheduleStyleUpdate (fst c) (snd c) p)"
  note step = sh_schedule_all_Cons [OF Cons.prems, of c calls]
  note f = sh_scheduleStyleUpdate_pending [OF Cons.prems, of "fst c" "snd c"]
  from Cons.IH [OF f(2)] show ?case
    unfolding step by (simp add: f)
qed

lemma fold_apply_entry:
  "style_writes (fold apply_entry ws p) = style_writes p @ ws \<and>
   uncaught (fold apply_entry ws p) = uncaught p \<and>
   frame_requests (fold apply_entry ws p) = frame_requests p"
  by (induction ws arbitrary: p) (simp_all add: apply_entry_def)

lemma fold_apply_entry_style:
  "distinct (map fst ws) \<Longrightarrow>
   element_style (fold apply_entry ws p) e =
     (case map_of ws e of None \<Rightarrow> element_style p e | Some st \<Rightarrow> Object_assign (element_style p e) st)"
proof (induction ws arbitrary: p)
  case Nil
  then show ?case by simp
next
  case (Cons w ws)
  obtain e' st' where w: "w = (e', st')" by (cases w)
  have d: "distinct (map fst ws)" and notin: "e' \<notin> fst ` set ws"
    using Cons.prems w by auto
  have none: "map_of ws e' = None" using notin by (simp add: map_of_eq_None_iff)
  show ?case
    using Cons.IH [OF d, of "apply_entry w p"] none
    by (auto simp: w apply_entry_def split: option.splits)
qed

lemma run_frame_flush:
  assumes "frame_requests p = [(h, ApplyStyles)]" "pendingStyles p = Some ps"
  shows "run_frame p =
     (fold apply_entry ps (p\<lparr>frame_requests := []\<rparr>))\<lparr>pendingStyles := Some [], styleUpdateScheduled := False\<rparr>"
  using assms by (simp add: run_frame_def run_callback_def applyStyles_def report_def)

lemma frame_coalescing_handler:
  assumes idle: "pendingStyles p = Some []" "\<not> styleUpdateScheduled p" "frame_requests p = []"
    and called: "fragments_for e calls \<noteq> []"
  shows "fst (sh_schedule_all calls p) = None \<and>
         frame_requests (snd (sh_schedule_all calls p)) = [(next_frame_handle p, ApplyStyles)] \<and>
         (\<exists>m. merge_fragments None (fragments_for e calls) = Some m \<and>
              filter (\<lambda>w. fst w = e)
                (drop (length (style_writes p))
                   (style_writes (run_frame (snd (sh_schedule_all calls p))))) = [(e, m)] \<and>
              map_of m = map_of (rev (concat (fragments_for e calls))) \<and>
              element_style (run_frame (snd (sh_schedule_all calls p))) e =
                Object_assign (element_style p e) m) \<and>
         pendingStyles (run_frame (snd (sh_schedule_all calls p))) = Some [] \<and>
         \<not> styleUpdateScheduled (run_frame (snd (sh_schedule_all calls p))) \<and>
         frame_requests (run_frame (snd (sh_schedule_all calls p))) = [] \<and>
         uncaught (run_frame (snd (sh_schedule_all calls p))) = uncaught p"
proof -
  let ?p1 = "snd (sh_schedule_all calls p)"
  have ne: "calls \<noteq> []" using called by (auto simp: fragments_for_def)
  from sh_schedule_all_pending [OF idle(1), of calls e] obtain ps' where
    ok: "fst (sh_schedule_all calls p) = None" and
    ps': "pendingStyles ?p1 = Some ps'" and
    look0: "map_of ps' e = merge_fragments (map_of [] e) (fragments_for e calls)" and
    dist: "distinct (map fst ps')"
    by auto
  have rest: "style_writes ?p1 = style_writes p" "element_style ?p1 = element_style p"
    "uncaught ?p1 = uncaught p" "frame_requests ?p1 = [(next_frame_handle p, ApplyStyles)]"
    using sh_schedule_all_rest [OF idle(1), of calls] idle(2,3) ne by simp_all
  obtain m where m: "merge_fragments None (fragments_for e calls) = Some m"
    using merge_fragments_nonempty [OF called] by blast
  have look: "map_of ps' e = Some m" using look0 m by simp
  have fr: "run_frame ?p1 =
      (fold apply_entry ps' (?p1\<lparr>frame_requests := []\<rparr>))\<lparr>pendingStyles := Some [], styleUpdateScheduled := False\<rparr>"
    using rest(4) ps' by (rule run_frame_flush)
  have writes: "style_writes (run_frame ?p1) = style_writes p @ ps'"
    using fold_apply_entry [of ps' "?p1\<lparr>frame_requests := []\<rparr>"] by (simp add: fr rest)
  have one: "filter (\<lambda>w. fst w = e) (drop (length (style_writes p)) (style_writes (run_frame ?p1))) = [(e, m)]"
    using filter_key_distinct [OF dist look] by (simp add: writes)
  have sem: "map_of m = map_of (rev (concat (fragments_for e calls)))"
    using merge_fragments_sem [of None "fragments_for e calls"] m by simp
  have sty: "element_style (run_frame ?p1) e = Object_assign (element_style p e) m"
    using fold_apply_entry_style [OF dist, of "?p1\<lparr>frame_requests := []\<rparr>" e] look
    by (simp add: fr rest)
  have after: "pendingStyles (run_frame ?p1) = Some []" "\<not> styleUpdateScheduled (run_frame ?p1)"
    "frame_requests (run_frame ?p1) = []" "uncaught (run_frame ?p1) = uncaught p"
    using fold_apply_entry [of ps' "?p1\<lparr>frame_requests := []\<rparr>"] by (simp_all add: fr rest)
  show ?thesis
    using ok rest(4) m one sem sty after by blast
qed

text \<open>
  C1. Start where no style update is pending and take any list of \<open>scheduleStyleUpdate\<close>
  calls in which element \<open>e\<close> is passed at least once, among calls for any other elements.
  Exactly one flush callback is requested for the frame. When the frame runs, exactly one
  style object is applied to \<open>e\<close>: the merge of the fragments passed for \<open>e\<close>, in which every
  property has the value set last, and the style of \<open>e\<close> is its old style assigned that
  object. Afterwards nothing is pending. This holds for the module-level scheduler and for
  the scheduler of the scroll coordinator, where moreover no call and no callback throws.
\<close>

theorem frame_coalescing:
  "(su_idle s \<and> fragments_for e calls \<noteq> [] \<longrightarrow>
      su_requested (su_schedule_all calls s) = 1 \<and>
      (\<exists>m. merge_fragments None (fragments_for e calls) = Some m \<and>
           filter (\<lambda>w. fst w = e)
             (drop (length (su_writes s)) (su_writes (su_frame (su_schedule_all calls s)))) = [(e, m)] \<and>
           map_of m = map_of (rev (concat (fragments_for e calls))) \<and>
           su_style (su_frame (su_schedule_all calls s)) e = Object_assign (su_style s e) m) \<and>
      su_idle (su_frame (su_schedule_all calls s))) \<and>
   (sh_idle p \<and> fragments_for e calls \<noteq> [] \<longrightarrow>
      fst (sh_schedule_all calls p) = None \<and>
      frame_requests (snd (sh_schedule_all calls p)) = [(next_frame_handle p, ApplyStyles)] \<and>
      (\<exists>m. merge_fragments None (fragments_for e calls) = Some m \<and>
           filter (\<lambda>w. fst w = e)
             (drop (length (style_writes p))
                (style_writes (run_frame (snd (sh_schedule_all calls p))))) = [(e, m)] \<and>
           map_of m = map_of (rev (concat (fragments_for e calls))) \<and>
           element_style (run_frame (snd (sh_schedule_all calls p))) e =
             Object_assign (element_style p e) m) \<and>
      sh_idle (run_frame (snd (sh_schedule_all calls p))) \<and>
      uncaught (run_frame (snd (sh_schedule_all calls p))) = uncaught p)"
proof -
  have a: "su_requested (su_schedule_all calls s) = 1 \<and>
      (\<exists>m. merge_fragments None (fragments_for e calls) = Some m \<and>
           filter (\<lambda>w. fst w = e)
             (drop (length (su_writes s)) (su_writes (su_frame (su_schedule_all calls s)))) = [(e, m)] \<and>
           map_of m = map_of (rev (concat (fragments_for e calls))) \<and>
           su_style (su_frame (su_schedule_all calls s)) e = Object_assign (su_style s e) m) \<and>
      su_idle (su_frame (su_schedule_all calls s))"
    if "su_idle s" "fragments_for e calls \<noteq> []"
    using frame_coalescing_module [of s e calls] that by (simp add: su_idle_def)
  have b: "fst (sh_schedule_all calls p) = None \<and>
      frame_requests (snd (sh_schedule_all calls p)) = [(next_frame_handle p, ApplyStyles)] \<and>
      (\<exists>m. merge_fragments None (fragments_for e calls) = Some m \<and>
           filter (\<lambda>w. fst w = e)
             (drop (length (style_writes p))
                (style_writes (run_frame (snd (sh_schedule_all calls p))))) = [(e, m)] \<and>
           map_of m = map_of (rev (concat (fragments_for e calls))) \<and>
           element_style (run_frame (snd (sh_schedule_all calls p))) e =
             Object_assign (element_style p e) m) \<and>
      sh_idle (run_frame (snd (sh_schedule_all calls p))) \<and>
      uncaught (run_frame (snd (sh_schedule_all calls p))) = uncaught p"
    if "sh_idle p" "fragments_for e calls \<noteq> []"
    using frame_coalescing_handler [of p e calls] that by (simp add: sh_idle_def)
  show ?thesis using a b by blast
qed

theorem frame_coalescing_witness:
  "su_requested (su_schedule_all
       [(1, [(''transform'', Css ''a''), (''opacity'', Css ''0'')]), (2, [(''transform'', Css ''b'')]),
        (1, [(''opacity'', Css ''1'')]), (1, [(''transform'', Css ''c'')])] scheduler_init) = 1 \<and>
   su_writes (su_frame (su_schedule_all
       [(1, [(''transform'', Css ''a''), (''opacity'', Css ''0'')]), (2, [(''transform'', Css ''b'')]),
        (1, [(''opacity'', Css ''1'')]), (1, [(''transform'', Css ''c'')])] scheduler_init)) =
     [(1, [(''transform'', Css ''c''), (''opacity'', Css ''1'')]), (2, [(''transform'', Css ''b'')])] \<and>
   frame_requests (snd (sh_schedule_all
       [(1, [(''transform'', Css ''a''), (''opacity'', Css ''0'')]), (2, [(''transform'', Css ''b'')]),
        (1, [(''opacity'', Css ''1'')]), (1, [(''transform'', Css ''c'')])]
       (page_loaded\<lparr>pendingStyles := Some []\<rparr>))) = [(1, ApplyStyles)]"
proof -
  let ?calls = "[(1::nat, [(''transform'', Css ''a''), (''opacity'', Css ''0'')]),
        (2, [(''transform'', Css ''b'')]),
        (1, [(''opacity'', Css ''1'')]), (1, [(''transform'', Css ''c'')])]"
  let ?p = "page_loaded\<lparr>pendingStyles := Some []\<rparr>"
  have idle: "su_idle scheduler_init" by (simp add: su_idle_def scheduler_init_def)
  have idle': "sh_idle ?p" by (simp add: sh_idle_def page_loaded_def)
  have h: "next_frame_handle ?p = 1" by (simp add: page_loaded_def)
  have fr: "fragments_for 1 ?calls \<noteq> []" by (simp add: fragments_for_def)
  have one: "su_requested (su_schedule_all ?calls scheduler_init) = 1"
    using frame_coalescing [of scheduler_init 1 ?calls] idle fr by blast
  have "frame_requests (snd (sh_schedule_all ?calls ?p)) = [(next_frame_handle ?p, ApplyStyles)]"
    using frame_coalescing [of _ 1 ?calls ?p] idle' fr by blast
  then have req: "frame_requests (snd (sh_schedule_all ?calls ?p)) = [(1, ApplyStyles)]"
    unfolding h .
  have ev: "su_schedule_all ?calls scheduler_init =
      scheduler_init\<lparr>updates := [(1, [(''transform'', Css ''c''), (''opacity'', Css ''1'')]),
                                 (2, [(''transform'', Css ''b'')])],
                     su_ticking := True, su_requested := 1\<rparr>"
    by (simp add: su_schedule_all_def scheduleStyleUpdate_def scheduler_init_def Let_def spread_def
        Object_assign_def)
  have "su_writes (su_frame (su_schedule_all ?calls scheduler_init)) =
     [(1, [(''transform'', Css ''c''), (''opacity'', Css ''1'')]), (2, [(''transform'', Css ''b'')])]"
    unfolding ev by (simp add: su_frame_def runUpdates_def su_apply_def scheduler_init_def)
  with one req show ?thesis by simp
qed

section \<open>Verification of the scroll coordinator\<close>

subsection \<open>Scroll progress\<close>

lemma js_progress_value:
  "d \<noteq> 0 \<Longrightarrow> js_over (js_times (js_divide x d) 100) 100 = Finite (x / d)"
  by (simp add: js_divide_def js_times_def js_over_def)

lemma map_of_spread_single:
  "map_of (spread a [(k, v)]) k = Some v"
  by (simp add: spread_def Object_assign_def update_conv')

lemma updateScrollProgress_value:
  assumes "scrollProgress p = Some bar" "pendingStyles p = Some ps"
    and "windowHeight p = Some wh" "documentHeight p = Some dh" "dh \<noteq> wh"
  shows "\<exists>p' ps' st. updateScrollProgress p = (None, p') \<and> pendingStyles p' = Some ps' \<and>
           map_of ps' bar = Some st \<and>
           map_of st ''transform'' = Some (ScaleX (Finite (scrollY p / (dh - wh))))"
proof -
  let ?v = "ScaleX (Finite (scrollY p / (dh - wh)))"
  let ?st = "spread (map_of ps bar) [(''transform'', ?v)]"
  have val: "js_over (js_times (js_divide (scrollY p)
        (ToNumber (documentHeight p) - ToNumber (windowHeight p))) 100) 100
      = Finite (scrollY p / (dh - wh))"
    using assms(3,4,5) by (simp add: ToNumber_def js_progress_value)
  have u: "updateScrollProgress p = sh_scheduleStyleUpdate bar [(''transform'', ?v)] p"
    using assms(1) by (simp add: updateScrollProgress_def Let_def val)
  note f = sh_scheduleStyleUpdate_pending [OF assms(2), of bar "[(''transform'', ?v)]"]
  have "updateScrollProgress p = (None, snd (updateScrollProgress p))"
    using f(1) unfolding u by (simp add: prod_eq_iff)
  moreover have "pendingStyles (snd (updateScrollProgress p)) = Some (AList.update bar ?st ps)"
    using f(2) unfolding u .
  moreover have "map_of (AList.update bar ?st ps) bar = Some ?st"
    by (simp add: update_conv')
  moreover have "map_of ?st ''transform'' = Some ?v"
    by (rule map_of_spread_single)
  ultimately show ?thesis by blast
qed

lemma debouncedParallax_pendingStyles:
  "pendingStyles (debouncedParallax p) = pendingStyles p"
  by (simp add: debouncedParallax_def window_setTimeout_def window_clearTimeout_def Let_def
      split: option.splits)

lemma scroll_tick_progress:
  assumes "updateScrollProgress p = (None, p')" "own_updateScrollProgress p"
    and "own_debouncedParallax p'"
  shows "fst (scroll_tick p) = None \<and> pendingStyles (snd (scroll_tick p)) = pendingStyles p'"
  using assms by (simp add: scroll_tick_def debouncedParallax_pendingStyles)

text \<open>
  C3, as amended. When the progress bar exists and the measured document is higher than the
  window, \<open>updateScrollProgress\<close> schedules for the bar the transform \<open>scaleX(v)\<close> with
  \<open>v\<close> the scroll offset divided by (document height minus window height), as it is: no
  clamp is applied. The callback of a scroll frame schedules this and no other style. The
  value lies between 0 and 1 exactly when the offset lies between 0 and that difference.
\<close>

theorem scroll_progress_unclamped:
  assumes "scrollProgress p = Some bar" "pendingStyles p = Some ps"
    and "windowHeight p = Some wh" "documentHeight p = Some dh" "wh < dh"
  shows "(\<exists>p' ps' st. updateScrollProgress p = (None, p') \<and> pendingStyles p' = Some ps' \<and>
           map_of ps' bar = Some st \<and>
           map_of st ''transform'' = Some (ScaleX (Finite (scrollY p / (dh - wh)))) \<and>
           (own_updateScrollProgress p \<and> own_debouncedParallax p' \<longrightarrow>
              fst (scroll_tick p) = None \<and> pendingStyles (snd (scroll_tick p)) = Some ps')) \<and>
         (in_unit_interval (Finite (scrollY p / (dh - wh))) \<longleftrightarrow>
            0 \<le> scrollY p \<and> scrollY p \<le> dh - wh)"
proof -
  have ne: "dh \<noteq> wh" and pos: "0 < dh - wh" using assms(5) by simp_all
  have iv: "in_unit_interval (Finite (scrollY p / (dh - wh))) \<longleftrightarrow>
            0 \<le> scrollY p \<and> scrollY p \<le> dh - wh"
    using pos by (simp add: in_unit_interval_def zero_le_divide_iff divide_le_eq_1)
  from updateScrollProgress_value [OF assms(1-4) ne] obtain p' ps' st where
    u: "updateScrollProgress p = (None, p')" and ps': "pendingStyles p' = Some ps'"
    and st: "map_of ps' bar = Some st"
      "map_of st ''transform'' = Some (ScaleX (Finite (scrollY p / (dh - wh))))"
    by blast
  have "fst (scroll_tick p) = None \<and> pendingStyles (snd (scroll_tick p)) = Some ps'"
    if "own_updateScrollProgress p" "own_debouncedParallax p'"
    using scroll_tick_progress [OF u that] ps' by simp
  with u ps' st iv show ?thesis by blast
qed

subsection \<open>The loaded page\<close>

lemmas page_ops =
  ScrollHandler_new_def handleResize_def clearRectCache_def updateParallax_def
  updateScrollProgress_def sh_scheduleStyleUpdate_def requestAnimationFrame_def
  ToNumber_def js_divide_def js_times_def js_over_def spread_def Object_assign_def Let_def

lemma constructed:
  "ScrollHandler_new page_loaded =
     (None,
      page_loaded\<lparr>lastScrollTop := Some 0, scrollDirection := Some ''down'',
         scrollProgress := Some 1, parallaxImages := Some [],
         windowHeight := Some 800, documentHeight := Some 3000,
         rectCache := Some Map.empty, cacheTimeout := 16,
         pendingStyles := Some [(1, [(''transform'', ScaleX (Finite 0))])],
         styleUpdateScheduled := True, lastParallaxUpdate := Some 100,
         parallaxUpdateInterval := 16,
         own_updateScrollProgress := True, own_updateParallax := True,
         own_clearRectCache := True, own_debouncedParallax := True,
         window_listeners := [''scroll'', ''resize''],
         frame_requests := [(1, ApplyStyles)], next_frame_handle := 2\<rparr>)"
  by (simp add: page_ops page_loaded_def)

lemma ready:
  "page_ready =
      page_loaded\<lparr>lastScrollTop := Some 0, scrollDirection := Some ''down'',
         scrollProgress := Some 1, parallaxImages := Some [],
         windowHeight := Some 800, documentHeight := Some 3000,
         rectCache := Some Map.empty, cacheTimeout := 16,
         pendingStyles := Some [],
         styleUpdateScheduled := False, lastParallaxUpdate := Some 100,
         parallaxUpdateInterval := 16,
         own_updateScrollProgress := True, own_updateParallax := True,
         own_clearRectCache := True, own_debouncedParallax := True,
         window_listeners := [''scroll'', ''resize''],
         frame_requests := [], next_frame_handle := 2,
         element_style := (\<lambda>e. [])(1 := [(''transform'', ScaleX (Finite 0))]),
         style_writes := [(1, [(''transform'', ScaleX (Finite 0))])]\<rparr>"
  unfolding page_ready_def constructed
  by (simp add: run_frame_def run_callback_def applyStyles_def report_def apply_entry_def
      Object_assign_def page_loaded_def)

lemmas frame_ops =
  run_frame_def run_callback_def applyStyles_def report_def apply_entry_def scroll_tick_def
  debouncedParallax_def window_setTimeout_def window_clearTimeout_def

lemma scrolled_past_measured_height:
  "scroll_event 2750 (page_ready\<lparr>scrollHeight := 4000\<rparr>) =
     page_ready\<lparr>scrollHeight := 4000, scrollY := 2750, lastScrollTop := Some 2750,
        scrollDirection := Some ''down'', ticking := True,
        frame_requests := [(2, ScrollTick)], next_frame_handle := 3\<rparr>"
  unfolding ready
  by (simp add: scroll_event_def onScroll_def requestAnimationFrame_def ToNumber_def Let_def
      page_loaded_def)

text \<open>
  C3 as stated fails. The page is loaded with a document of height 3000 in a window of
  height 800 and these heights are measured. The document then grows to 4000 without a
  resize, the user scrolls to 2750, and the scroll frame is served: the transform scheduled
  for the progress bar is \<open>scaleX(1.25)\<close>, since 2750 / (3000 - 800) = 1.25 is not clamped.
\<close>

theorem scroll_progress_counterexample:
  "pendingStyles (run_frame (scroll_event 2750 (page_ready\<lparr>scrollHeight := 4000\<rparr>))) =
     Some [(1, [(''transform'', ScaleX (Finite (5 / 4)))])] \<and>
   uncaught (run_frame (scroll_event 2750 (page_ready\<lparr>scrollHeight := 4000\<rparr>))) = [] \<and>
   \<not> in_unit_interval (Finite (5 / 4))"
  by (simp only: scrolled_past_measured_height)
    (simp add: ready frame_ops page_ops page_loaded_def in_unit_interval_def)

theorem scroll_progress_unclamped_witness:
  "(\<exists>p' ps' st. updateScrollProgress (page_ready\<lparr>scrollY := 550\<rparr>) = (None, p') \<and>
       pendingStyles p' = Some ps' \<and> map_of ps' 1 = Some st \<and>
       map_of st ''transform'' = Some (ScaleX (Finite (1 / 4)))) \<and>
   in_unit_interval (Finite (1 / 4))"
proof -
  let ?p = "page_ready\<lparr>scrollY := 550\<rparr>"
  have a: "scrollProgress ?p = Some 1" "pendingStyles ?p = Some []"
    "windowHeight ?p = Some 800" "documentHeight ?p = Some 3000" "(800::real) < 3000"
    unfolding ready by simp_all
  have v: "scrollY ?p / (3000 - 800) = 1 / 4" by simp
  from scroll_progress_unclamped [OF a] show ?thesis
    unfolding v by (simp add: in_unit_interval_def) blast
qed

subsection \<open>Cleanup\<close>

lemma scrolled:
  "scroll_event 120 page_ready =
     page_ready\<lparr>scrollY := 120, lastScrollTop := Some 120,
        scrollDirection := Some ''down'', ticking := True,
        frame_requests := [(2, ScrollTick)], next_frame_handle := 3\<rparr>"
  unfolding ready
  by (simp add: scroll_event_def onScroll_def requestAnimationFrame_def ToNumber_def Let_def
      page_loaded_def)

lemma destroyed_after_scroll:
  "destroy (scroll_event 120 page_ready) =
     (None,
      page_ready\<lparr>scrollY := 120, ticking := True,
        frame_requests := [(2, ScrollTick)], next_frame_handle := 3,
        window_listeners := [], pendingStyles := None, scrollProgress := None,
        parallaxImages := None, own_updateScrollProgress := False, own_updateParallax := False,
        own_clearRectCache := False, own_debouncedParallax := False,
        lastScrollTop := None, scrollDirection := None, windowHeight := None,
        documentHeight := None, lastParallaxUpdate := None, rectCache := None\<rparr>)"
  by (simp only: scrolled)
    (simp add: ready destroy_def cancelAnimationFrame_def handle_of_bool_def clearRectCache_def
      Let_def page_loaded_def)

lemma scheduled:
  "sh_scheduleStyleUpdate 1 [(''opacity'', Css ''1'')] page_ready =
     (None,
      page_ready\<lparr>pendingStyles := Some [(1, [(''opacity'', Css ''1'')])],
        styleUpdateScheduled := True,
        frame_requests := [(2, ApplyStyles)], next_frame_handle := 3\<rparr>)"
  unfolding ready
  by (simp add: sh_scheduleStyleUpdate_def requestAnimationFrame_def spread_def Object_assign_def
      Let_def page_loaded_def)

lemma destroyed_after_schedule:
  "destroy (snd (sh_scheduleStyleUpdate 1 [(''opacity'', Css ''1'')] page_ready)) =
     (None,
      page_ready\<lparr>styleUpdateScheduled := True,
        frame_requests := [(2, ApplyStyles)], next_frame_handle := 3,
        window_listeners := [], pendingStyles := None, scrollProgress := None,
        parallaxImages := None, own_updateScrollProgress := False, own_updateParallax := False,
        own_clearRectCache := False, own_debouncedParallax := False,
        lastScrollTop := None, scrollDirection := None, windowHeight := None,
        documentHeight := None, lastParallaxUpdate := None, rectCache := None\<rparr>)"
  by (simp only: scheduled)
    (simp add: ready destroy_def cancelAnimationFrame_def handle_of_bool_def clearRectCache_def
      Let_def page_loaded_def)

lemma scroll_frame_served:
  "run_frame (scroll_event 120 page_ready) =
     page_ready\<lparr>scrollY := 120, lastScrollTop := Some 120,
        scrollDirection := Some ''down'', ticking := False,
        pendingStyles := Some [(1, [(''transform'', ScaleX (Finite (120 / 2200)))])],
        styleUpdateScheduled := True,
        frame_requests := [(3, ApplyStyles)], next_frame_handle := 4,
        timers := [(1, 116, ParallaxLater)], next_timer_handle := 2,
        debounce_timeout := Some 1\<rparr>"
  by (simp only: scrolled)
    (simp add: ready frame_ops page_ops page_loaded_def)

text \<open>
  C2 fails on the code. \<open>destroy\<close> passes the boolean flags to \<open>cancelAnimationFrame\<close>, so
  it cancels the request with handle 1, not the request that is pending. On the loaded page,
  whose first frame (handle 1) has been served: after a scroll event the tick callback is
  pending with handle 2, \<open>destroy\<close> leaves it pending, and the next frame runs it against the
  released state, where it throws. The same happens to a style flush requested before
  \<open>destroy\<close>, which finds \<open>pendingStyles\<close> to be \<open>null\<close>, and to the timer of the debounced
  parallax update, which \<open>destroy\<close> never clears: its callback writes \<open>lastParallaxUpdate\<close>
  and throws on \<open>parallaxImages\<close>. Only a request that happens to have handle 1 is cancelled.
\<close>

theorem destroy_leaves_callbacks_pending:
  "fst (destroy (scroll_event 120 page_ready)) = None \<and>
   frame_requests (snd (destroy (scroll_event 120 page_ready))) = [(2, ScrollTick)] \<and>
   uncaught (run_frame (snd (destroy (scroll_event 120 page_ready)))) =
     [TypeError ''this.updateScrollProgress is not a function''] \<and>
   frame_requests (snd (destroy (snd (sh_scheduleStyleUpdate 1 [(''opacity'', Css ''1'')] page_ready))))
     = [(2, ApplyStyles)] \<and>
   uncaught (run_frame (snd (destroy (snd (sh_scheduleStyleUpdate 1 [(''opacity'', Css ''1'')] page_ready)))))
     = [TypeError ''Cannot read properties of null (reading forEach)''] \<and>
   timers (snd (destroy (run_frame (scroll_event 120 page_ready)))) = [(1, 116, ParallaxLater)] \<and>
   uncaught (run_timer 1 (elapse 16 (snd (destroy (run_frame (scroll_event 120 page_ready)))))) =
     [TypeError ''Cannot read properties of null (reading forEach)''] \<and>
   lastParallaxUpdate (run_timer 1 (elapse 16 (snd (destroy (run_frame (scroll_event 120 page_ready))))))
     = Some 116 \<and>
   frame_requests (snd (destroy (snd (ScrollHandler_new page_loaded)))) = []"
proof -
  have a: "fst (destroy (scroll_event 120 page_ready)) = None \<and>
   frame_requests (snd (destroy (scroll_event 120 page_ready))) = [(2, ScrollTick)] \<and>
   uncaught (run_frame (snd (destroy (scroll_event 120 page_ready)))) =
     [TypeError ''this.updateScrollProgress is not a function'']"
    by (simp only: destroyed_after_scroll) (simp add: ready frame_ops page_loaded_def)
  have b: "frame_requests (snd (destroy (snd (sh_scheduleStyleUpdate 1 [(''opacity'', Css ''1'')] page_ready))))
     = [(2, ApplyStyles)] \<and>
   uncaught (run_frame (snd (destroy (snd (sh_scheduleStyleUpdate 1 [(''opacity'', Css ''1'')] page_ready)))))
     = [TypeError ''Cannot read properties of null (reading forEach)'']"
    by (simp only: destroyed_after_schedule) (simp add: ready frame_ops page_loaded_def)
  have c: "timers (snd (destroy (run_frame (scroll_event 120 page_ready)))) = [(1, 116, ParallaxLater)] \<and>
   uncaught (run_timer 1 (elapse 16 (snd (destroy (run_frame (scroll_event 120 page_ready)))))) =
     [TypeError ''Cannot read properties of null (reading forEach)''] \<and>
   lastParallaxUpdate (run_timer 1 (elapse 16 (snd (destroy (run_frame (scroll_event 120 page_ready))))))
     = Some 116"
    by (simp only: scroll_frame_served)
      (simp add: ready destroy_def cancelAnimationFrame_def handle_of_bool_def clearRectCache_def
        Let_def page_loaded_def run_timer_def elapse_def parallax_later_def updateParallax_def
        window_clearTimeout_def report_def ToNumber_def)
  have d: "frame_requests (snd (destroy (snd (ScrollHandler_new page_loaded)))) = []"
    by (simp only: constructed)
      (simp add: destroy_def cancelAnimationFrame_def handle_of_bool_def clearRectCache_def
        Let_def page_loaded_def)
  show ?thesis using a b c d by blast
qed

subsection \<open>Geometry cache\<close>

lemma getElementRect_hit:
  assumes "rectCache p = Some cache" "cache el = Some (rect, ts)"
    and "performance_now p - ts < cacheTimeout p"
  shows "getElementRect el p = (Inr rect, p)"
  using assms by (simp add: getElementRect_def Let_def)

lemma getElementRect_query:
  assumes "rectCache p = Some cache"
    and "cache el = None \<or> (\<exists>rect ts. cache el = Some (rect, ts) \<and> \<not> performance_now p - ts < cacheTimeout p)"
  shows "getElementRect el p =
     (Inr \<lparr>rect_id = next_rect p, rect_top = fst (bounding_box p el),
           rect_bottom = snd (bounding_box p el)\<rparr>,
      p\<lparr>next_rect := next_rect p + 1, rect_queries := rect_queries p @ [el],
        rectCache := Some (cache(el \<mapsto>
          (\<lparr>rect_id = next_rect p, rect_top = fst (bounding_box p el),
            rect_bottom = snd (bounding_box p el)\<rparr>, performance_now p)))\<rparr>)"
  using assms by (auto simp: getElementRect_def getBoundingClientRect_def Let_def)

text \<open>
  C9. A fetch that finds an entry younger than the cache window returns the cached object
  and changes nothing: no geometry query is made. Take a fetch that did query the geometry:
  it returned a new rectangle object and stored it with the current timestamp. A second
  fetch for the same element less than the cache window later returns the identical object
  and makes no query. A second fetch once the window has elapsed, or after
  \<open>clearRectCache\<close> (which resize handling calls), queries the geometry again, returns
  another object and stores it with the timestamp of that fetch.
\<close>

theorem rect_cache_window:
  assumes c: "rectCache p = Some cache"
    and q: "getElementRect el p = (Inr r1, p1)" "rect_queries p1 \<noteq> rect_queries p"
  shows "(\<forall>rect ts. cache el = Some (rect, ts) \<and> performance_now p - ts < cacheTimeout p \<longrightarrow>
            getElementRect el p = (Inr rect, p)) \<and>
         rect_id r1 = next_rect p \<and> rect_queries p1 = rect_queries p @ [el] \<and>
         rectCache p1 = Some (cache(el \<mapsto> (r1, performance_now p))) \<and>
         (0 \<le> dt \<and> dt < cacheTimeout p \<longrightarrow>
            getElementRect el (elapse dt p1) = (Inr r1, elapse dt p1)) \<and>
         (cacheTimeout p \<le> dt \<longrightarrow>
            (\<exists>r2 p2. getElementRect el (elapse dt p1) = (Inr r2, p2) \<and>
               rect_id r2 \<noteq> rect_id r1 \<and> rect_queries p2 = rect_queries p1 @ [el] \<and>
               (\<exists>cache2. rectCache p2 = Some cache2 \<and> cache2 el = Some (r2, performance_now p + dt)))) \<and>
         (\<exists>r3 p3. getElementRect el (clearRectCache p1) = (Inr r3, p3) \<and>
               rect_id r3 \<noteq> rect_id r1 \<and> rect_queries p3 = rect_queries p1 @ [el] \<and>
               rectCache p3 = Some [el \<mapsto> (r3, performance_now p)])"
proof -
  have hit: "\<forall>rect ts. cache el = Some (rect, ts) \<and> performance_now p - ts < cacheTimeout p \<longrightarrow>
            getElementRect el p = (Inr rect, p)"
    using getElementRect_hit [OF c] by blast
  have miss: "cache el = None \<or>
      (\<exists>rect ts. cache el = Some (rect, ts) \<and> \<not> performance_now p - ts < cacheTimeout p)"
  proof (rule ccontr)
    assume "\<not> ?thesis"
    then obtain rect ts where "cache el = Some (rect, ts)" "performance_now p - ts < cacheTimeout p"
      by (cases "cache el") auto
    from getElementRect_hit [OF c this] q show False by simp
  qed
  let ?r = "\<lparr>rect_id = next_rect p, rect_top = fst (bounding_box p el),
           rect_bottom = snd (bounding_box p el)\<rparr>"
  from getElementRect_query [OF c miss] q(1)
  have r1: "r1 = ?r"
    and p1: "p1 = p\<lparr>next_rect := next_rect p + 1, rect_queries := rect_queries p @ [el],
        rectCache := Some (cache(el \<mapsto> (?r, performance_now p)))\<rparr>"
    by simp_all
  have first: "rect_id r1 = next_rect p" "rect_queries p1 = rect_queries p @ [el]"
    "rectCache p1 = Some (cache(el \<mapsto> (r1, performance_now p)))"
    by (simp_all add: r1 p1)
  have c1: "rectCache (elapse dt p1) = Some (cache(el \<mapsto> (r1, performance_now p)))"
    and e1: "(cache(el \<mapsto> (r1, performance_now p))) el = Some (r1, performance_now p)"
    and n1: "performance_now (elapse dt p1) = performance_now p + dt"
    and t1: "cacheTimeout (elapse dt p1) = cacheTimeout p"
    by (simp_all add: elapse_def p1 r1)
  have again: "getElementRect el (elapse dt p1) = (Inr r1, elapse dt p1)"
    if "0 \<le> dt" "dt < cacheTimeout p"
    using that by (intro getElementRect_hit [OF c1 e1]) (simp add: n1 t1)
  have expired: "\<exists>r2 p2. getElementRect el (elapse dt p1) = (Inr r2, p2) \<and>
               rect_id r2 \<noteq> rect_id r1 \<and> rect_queries p2 = rect_queries p1 @ [el] \<and>
               (\<exists>cache2. rectCache p2 = Some cache2 \<and> cache2 el = Some (r2, performance_now p + dt))"
    if "cacheTimeout p \<le> dt"
  proof -
    have "\<not> performance_now (elapse dt p1) - performance_now p < cacheTimeout (elapse dt p1)"
      using that by (simp add: n1 t1)
    with e1 have m: "(cache(el \<mapsto> (r1, performance_now p))) el = None \<or>
        (\<exists>rect ts. (cache(el \<mapsto> (r1, performance_now p))) el = Some (rect, ts) \<and>
           \<not> performance_now (elapse dt p1) - ts < cacheTimeout (elapse dt p1))"
      by blast
    show ?thesis
      using getElementRect_query [OF c1 m] by (simp add: n1 first(1)) (simp add: elapse_def p1)
  qed
  have cleared: "\<exists>r3 p3. getElementRect el (clearRectCache p1) = (Inr r3, p3) \<and>
               rect_id r3 \<noteq> rect_id r1 \<and> rect_queries p3 = rect_queries p1 @ [el] \<and>
               rectCache p3 = Some [el \<mapsto> (r3, performance_now p)]"
  proof -
    have cc: "rectCache (clearRectCache p1) = Some Map.empty" by (simp add: clearRectCache_def)
    have m: "Map.empty el = None \<or>
        (\<exists>rect ts. Map.empty el = Some (rect, ts) \<and>
           \<not> performance_now (clearRectCache p1) - ts < cacheTimeout (clearRectCache p1))"
      by simp
    show ?thesis
      using getElementRect_query [OF cc m] by (simp add: first(1)) (simp add: clearRectCache_def p1)
  qed
  show ?thesis using hit first again expired cleared by blast
qed

theorem rect_cache_window_witness:
  "fst (getElementRect 7 page_ready) = Inr \<lparr>rect_id = 0, rect_top = 0, rect_bottom = 0\<rparr> \<and>
   rect_queries (snd (getElementRect 7 page_ready)) = [7] \<and>
   getElementRect 7 (elapse 10 (snd (getElementRect 7 page_ready))) =
     (Inr \<lparr>rect_id = 0, rect_top = 0, rect_bottom = 0\<rparr>, elapse 10 (snd (getElementRect 7 page_ready))) \<and>
   (\<exists>r2 p2. getElementRect 7 (elapse 16 (snd (getElementRect 7 page_ready))) = (Inr r2, p2) \<and>
      rect_id r2 \<noteq> 0 \<and> rect_queries p2 = [7, 7])"
proof -
  let ?R = "\<lparr>rect_id = 0, rect_top = 0, rect_bottom = 0\<rparr>"
  let ?P = "page_ready\<lparr>next_rect := 1, rect_queries := [7], rectCache := Some [7 \<mapsto> (?R, 100)]\<rparr>"
  have c: "rectCache page_ready = Some Map.empty" and t: "cacheTimeout page_ready = 16"
    and n: "next_rect page_ready = 0" and qs: "rect_queries page_ready = []"
    and pn: "performance_now page_ready = 100"
    unfolding ready by (simp_all add: page_loaded_def)
  have q1: "getElementRect 7 page_ready = (Inr ?R, ?P)"
    unfolding ready
    by (simp add: getElementRect_def getBoundingClientRect_def Let_def page_loaded_def)
  have q2: "rect_queries ?P \<noteq> rect_queries page_ready" by (simp add: qs)
  note w = rect_cache_window [OF c q1 q2]
  have a: "getElementRect 7 (elapse 10 ?P) = (Inr ?R, elapse 10 ?P)"
    using w [of 10] by (simp add: t pn n qs)
  have b: "\<exists>r2 p2. getElementRect 7 (elapse 16 ?P) = (Inr r2, p2) \<and>
      rect_id r2 \<noteq> 0 \<and> rect_queries p2 = [7, 7]"
    using w [of 16] by (simp add: t pn n qs) blast
  show ?thesis
    unfolding q1 using a b by simp
qed

end
